theory Spec2Isabelle
  imports Main
begin

section \<open>Python values used by \<open>pyxdsm/XDSM.py\<close>\<close>

text \<open>
  Strings are \<open>char list\<close>. The backslash and the double quote of the source's string
  literals are named, since they cannot be typed inside a HOL string literal.
\<close>

definition bs :: char where
  "bs = CHR 0x5C"

definition dq :: char where
  "dq = CHR 0x22"

text \<open>\<open>sep.join(xs)\<close> of Python.\<close>

fun join :: "string \<Rightarrow> string list \<Rightarrow> string" where
  "join sep [] = []"
| "join sep [x] = x"
| "join sep (x # y # ys) = x @ sep @ join sep (y # ys)"

text \<open>\<open>'{}'.format(n)\<close> for a non-negative Python int: its decimal digits.\<close>

fun str_nat :: "nat \<Rightarrow> string" where
  "str_nat n =
     (if n < 10 then [''0123456789'' ! n]
      else str_nat (n div 10) @ [''0123456789'' ! (n mod 10)])"

declare str_nat.simps [simp del]

text \<open>
  The exceptions the module can raise: the two \<open>ValueError\<close>s it raises itself, the
  \<open>KeyError\<close> of a failed dictionary lookup, the \<open>IndexError\<close> of numpy indexing, the
  \<open>TypeError\<close> of \<open>None + str\<close>, the \<open>OSError\<close> of \<open>open\<close> and \<open>os.remove\<close> (with the
  path that was refused), and \<open>exit(-1)\<close>.
\<close>

datatype error =
    ValueError string
  | KeyError string
  | IndexError
  | TypeError
  | OSError string
  | SystemExit int

text \<open>
  A Python \<open>dict\<close> with string keys, in insertion order: assigning to a key that is
  present replaces the value in place, assigning to a new key appends the entry.
\<close>

type_synonym 'v dict = "(string \<times> 'v) list"

fun dict_set :: "'v dict \<Rightarrow> string \<Rightarrow> 'v \<Rightarrow> 'v dict" where
  "dict_set [] k v = [(k, v)]"
| "dict_set ((k', v') # kvs) k v =
     (if k' = k then (k, v) # kvs else (k', v') # dict_set kvs k v)"

text \<open>\<open>d[k]\<close>: the value, or \<open>KeyError\<close>.\<close>

definition dict_get :: "(string \<rightharpoonup> 'v) \<Rightarrow> string \<Rightarrow> error + 'v" where
  "dict_get d k = (case d k of None \<Rightarrow> Inl (KeyError k) | Some v \<Rightarrow> Inr v)"

section \<open>The diagram model: class \<open>XDSM\<close>\<close>

text \<open>
  A label is a string, or a tuple or list of strings (\<open>_parse_label\<close> tells them apart
  with \<open>isinstance\<close>).
\<close>

datatype label = Plain string | Lines "string list"

text \<open>
  The entries of \<open>self.comps\<close>: \<open>[node_name, style, label, stack, faded, text_width]\<close>;
  \<open>text_width\<close> is \<open>None\<close> or a value, kept as the text \<open>'{}'.format\<close> gives for it.
\<close>

type_synonym comp = "string \<times> string \<times> label \<times> bool \<times> bool \<times> string option"

text \<open>The entries of \<open>self.connections\<close>: \<open>[src, target, style, label, stack, faded]\<close>.\<close>

type_synonym connection = "string \<times> string \<times> string \<times> label \<times> bool \<times> bool"

text \<open>The values of \<open>self.ins\<close>, \<open>self.left_outs\<close>, \<open>self.right_outs\<close>:
  \<open>(node_name, style, label, stack)\<close>.\<close>

type_synonym marker = "string \<times> string \<times> label \<times> bool"

record XDSM =
  comps :: "comp list"
  connections :: "connection list"
  left_outs :: "marker dict"
  right_outs :: "marker dict"
  ins :: "marker dict"
  processes :: "string list list"
  process_arrows :: "bool list"
  kwargs :: "bool dict"

definition get_default_kwargs :: "bool dict" where
  "get_default_kwargs = [(''use_sfmath'', True)]"

text \<open>The loop of \<open>__init__\<close> over the keyword arguments; an unknown key ends the process.\<close>

fun init_kwargs :: "bool dict \<Rightarrow> bool dict \<Rightarrow> error + bool dict" where
  "init_kwargs kw [] = Inr kw"
| "init_kwargs kw ((key, val) # rest) =
     (if key \<in> set (map fst kw) then init_kwargs (dict_set kw key val) rest
      else Inl (SystemExit (- 1)))"

definition XDSM_init :: "bool dict \<Rightarrow> error + XDSM" where
  "XDSM_init args =
     (case init_kwargs get_default_kwargs args of
        Inl e \<Rightarrow> Inl e
      | Inr kw \<Rightarrow>
          Inr \<lparr> comps = [], connections = [], left_outs = [], right_outs = [], ins = [],
                processes = [], process_arrows = [], kwargs = kw \<rparr>)"

text \<open>The model \<open>XDSM()\<close> builds, with no keyword argument.\<close>

definition XDSM_new :: XDSM where
  "XDSM_new =
     \<lparr> comps = [], connections = [], left_outs = [], right_outs = [], ins = [],
       processes = [], process_arrows = [], kwargs = get_default_kwargs \<rparr>"

definition add_system ::
  "XDSM \<Rightarrow> string \<Rightarrow> string \<Rightarrow> label \<Rightarrow> bool \<Rightarrow> bool \<Rightarrow> string option \<Rightarrow> XDSM" where
  "add_system m node_name style lbl stack faded text_width =
     m\<lparr>comps := comps m @ [(node_name, style, lbl, stack, faded, text_width)]\<rparr>"

definition add_input :: "XDSM \<Rightarrow> string \<Rightarrow> label \<Rightarrow> string \<Rightarrow> bool \<Rightarrow> XDSM" where
  "add_input m name lbl style stack =
     m\<lparr>ins := dict_set (ins m) name (''output_'' @ name, style, lbl, stack)\<rparr>"

definition add_output :: "XDSM \<Rightarrow> string \<Rightarrow> label \<Rightarrow> string \<Rightarrow> bool \<Rightarrow> string \<Rightarrow> XDSM" where
  "add_output m name lbl style stack side =
     (if side = ''left'' then
        m\<lparr>left_outs := dict_set (left_outs m) name (''left_output_'' @ name, style, lbl, stack)\<rparr>
      else if side = ''right'' then
        m\<lparr>right_outs := dict_set (right_outs m) name (''right_output_'' @ name, style, lbl, stack)\<rparr>
      else m)"

text \<open>
  \<open>connect\<close> can raise: it returns the outcome of the call together with the model as
  the call leaves it.
\<close>

definition connect ::
  "XDSM \<Rightarrow> string \<Rightarrow> string \<Rightarrow> label \<Rightarrow> string \<Rightarrow> bool \<Rightarrow> bool \<Rightarrow> (error + unit) \<times> XDSM" where
  "connect m src target lbl style stack faded =
     (if src = target then (Inl (ValueError ''Can not connect component to itself''), m)
      else (Inr (), m\<lparr>connections := connections m @ [(src, target, style, lbl, stack, faded)]\<rparr>))"

definition add_process :: "XDSM \<Rightarrow> string list \<Rightarrow> bool \<Rightarrow> XDSM" where
  "add_process m systems arrow =
     m\<lparr>processes := processes m @ [systems], process_arrows := process_arrows m @ [arrow]\<rparr>"

section \<open>Sequencing of steps that can raise\<close>

definition bind_err :: "error + 'a \<Rightarrow> ('a \<Rightarrow> error + 'b) \<Rightarrow> error + 'b" where
  "bind_err r f = (case r of Inl e \<Rightarrow> Inl e | Inr v \<Rightarrow> f v)"

text \<open>A \<open>for\<close> loop whose body can raise: the first exception leaves the loop.\<close>

fun fold_err :: "('a \<Rightarrow> 's \<Rightarrow> error + 's) \<Rightarrow> 'a list \<Rightarrow> 's \<Rightarrow> error + 's" where
  "fold_err f [] s = Inr s"
| "fold_err f (x # xs) s = bind_err (f x s) (fold_err f xs)"

section \<open>The grid layout: \<open>_build_node_grid\<close>\<close>

definition parse_label :: "label \<Rightarrow> string" where
  "parse_label lbl =
     (case lbl of
        Lines ls \<Rightarrow>
          ''$'' @ [bs] @ ''begin{array}{c}'' @ join ('' '' @ [bs, bs] @ '' '') ls
            @ [bs] @ ''end{array}$''
      | Plain s \<Rightarrow> ''$'' @ s @ ''$'')"

text \<open>The template \<open>node_str\<close>, formatted.\<close>

definition node_str :: "string \<Rightarrow> string \<Rightarrow> string \<Rightarrow> string" where
  "node_str style node_name node_label =
     [bs] @ ''node ['' @ style @ ''] ('' @ node_name @ '') {'' @ node_label @ ''};''"

text \<open>The dimension \<open>size\<close> (here \<open>sz\<close>) after the three increments.\<close>

definition grid_size :: "XDSM \<Rightarrow> nat" where
  "grid_size m =
     (let sz = length (comps m);
          sz = (if ins m \<noteq> [] then sz + 1 else sz);
          sz = (if left_outs m \<noteq> [] then sz + 1 else sz);
          sz = (if right_outs m \<noteq> [] then sz + 1 else sz)
      in sz)"

text \<open>\<open>comps_rows\<close> and \<open>comps_cols\<close>: \<open>np.arange(size)\<close>, shifted.\<close>

definition comps_rows :: "XDSM \<Rightarrow> nat list" where
  "comps_rows m =
     (let rows = [0 ..< length (comps m)]
      in if ins m \<noteq> [] then map (\<lambda>i. i + 1) rows else rows)"

definition comps_cols :: "XDSM \<Rightarrow> nat list" where
  "comps_cols m =
     (let cols = [0 ..< length (comps m)]
      in if left_outs m \<noteq> [] then map (\<lambda>j. j + 1) cols else cols)"

text \<open>
  The grid is a numpy array of shape \<open>(size, size)\<close>: a list of rows. An index into an
  axis of length \<open>n\<close> may be negative, counting from the end, and raises \<open>IndexError\<close>
  outside \<open>[-n, n)\<close>.
\<close>

type_synonym grid = "string list list"

definition empty_grid :: "nat \<Rightarrow> grid" where
  "empty_grid sz = replicate sz (replicate sz [])"

definition np_index :: "nat \<Rightarrow> int \<Rightarrow> error + nat" where
  "np_index n i =
     (let j = (if i < 0 then int n + i else i)
      in if 0 \<le> j \<and> j < int n then Inr (nat j) else Inl IndexError)"

text \<open>\<open>grid[loc] = node\<close>.\<close>

definition grid_set :: "grid \<Rightarrow> int \<times> int \<Rightarrow> string \<Rightarrow> error + grid" where
  "grid_set g loc node =
     bind_err (np_index (length g) (fst loc)) (\<lambda>r.
     bind_err (np_index (length (g ! r)) (snd loc)) (\<lambda>c.
     Inr (g[r := (g ! r)[c := node]])))"

text \<open>The node of a component: the body of the first loop up to the assignment.\<close>

fun comp_node :: "comp \<Rightarrow> string" where
  "comp_node (node_name, style, lbl, stack, faded, text_width) =
     (let style = (if stack then style @ '',stack'' else style);
          style = (if faded then style @ '',faded'' else style);
          style = (case text_width of
                     None \<Rightarrow> style
                   | Some w \<Rightarrow> style @ '',text width='' @ w @ ''cm'')
      in node_str style node_name (parse_label lbl))"

type_synonym idx_map = "string \<rightharpoonup> nat"

text \<open>One round of the loop over \<open>zip(comps_rows, comps_cols, self.comps)\<close>.\<close>

fun place_comp ::
  "nat \<times> nat \<times> comp \<Rightarrow> grid \<times> idx_map \<times> idx_map \<Rightarrow> error + grid \<times> idx_map \<times> idx_map" where
  "place_comp (i_row, j_col, cmp) (g, row_idx_map, col_idx_map) =
     bind_err (grid_set g (int i_row, int j_col) (comp_node cmp)) (\<lambda>g'.
     Inr (g', row_idx_map(fst cmp \<mapsto> i_row), col_idx_map(fst cmp \<mapsto> j_col)))"

text \<open>The node of a connection, and one round of the loop over \<open>self.connections\<close>.\<close>

fun conn_node :: "connection \<Rightarrow> string" where
  "conn_node (src, target, style, lbl, stack, faded) =
     (let style = (if stack then style @ '',stack'' else style);
          style = (if faded then style @ '',faded'' else style)
      in node_str style (src @ ''-'' @ target) (parse_label lbl))"

fun place_conn :: "idx_map \<Rightarrow> idx_map \<Rightarrow> connection \<Rightarrow> grid \<Rightarrow> error + grid" where
  "place_conn row_idx_map col_idx_map (src, target, rest) g =
     bind_err (dict_get row_idx_map src) (\<lambda>src_row.
     bind_err (dict_get col_idx_map target) (\<lambda>target_col.
     grid_set g (int src_row, int target_col) (conn_node (src, target, rest))))"

text \<open>The node of an input or output marker, and one round of each of the three loops
  over the markers.\<close>

fun marker_node :: "marker \<Rightarrow> string" where
  "marker_node (node_name, style, lbl, stack) =
     (let style = (if stack then style @ '',stack'' else style)
      in node_str style node_name (parse_label lbl))"

fun place_left_out :: "idx_map \<Rightarrow> string \<times> marker \<Rightarrow> grid \<Rightarrow> error + grid" where
  "place_left_out row_idx_map (comp_name, out_data) g =
     bind_err (dict_get row_idx_map comp_name) (\<lambda>i_row.
     grid_set g (int i_row, 0) (marker_node out_data))"

fun place_right_out :: "idx_map \<Rightarrow> string \<times> marker \<Rightarrow> grid \<Rightarrow> error + grid" where
  "place_right_out row_idx_map (comp_name, out_data) g =
     bind_err (dict_get row_idx_map comp_name) (\<lambda>i_row.
     grid_set g (int i_row, - 1) (marker_node out_data))"

fun place_in :: "idx_map \<Rightarrow> string \<times> marker \<Rightarrow> grid \<Rightarrow> error + grid" where
  "place_in col_idx_map (comp_name, in_data) g =
     bind_err (dict_get col_idx_map comp_name) (\<lambda>j_col.
     grid_set g (0, int j_col) (marker_node in_data))"

text \<open>The first loop: the grid with the components, and the two index maps.\<close>

definition comps_placed :: "XDSM \<Rightarrow> error + grid \<times> idx_map \<times> idx_map" where
  "comps_placed m =
     fold_err place_comp (zip (comps_rows m) (zip (comps_cols m) (comps m)))
       (empty_grid (grid_size m), Map.empty, Map.empty)"

text \<open>The grid as it stands before it is turned into a string.\<close>

definition node_grid :: "XDSM \<Rightarrow> error + grid" where
  "node_grid m =
     bind_err (comps_placed m) (\<lambda>(g, row_idx_map, col_idx_map).
     bind_err (fold_err (place_conn row_idx_map col_idx_map) (connections m) g) (\<lambda>g.
     bind_err (fold_err (place_left_out row_idx_map) (left_outs m) g) (\<lambda>g.
     bind_err (fold_err (place_right_out row_idx_map) (right_outs m) g) (\<lambda>g.
     fold_err (place_in col_idx_map) (ins m) g))))"

text \<open>The last loop: one block of text for each row.\<close>

definition row_text :: "nat \<times> string list \<Rightarrow> string" where
  "row_text ir =
     ''%Row '' @ str_nat (fst ir) @ ''\<newline>'' @ join ''&\<newline>'' (snd ir) @ [bs, bs] @ ''\<newline>''"

definition rows_str :: "grid \<Rightarrow> string" where
  "rows_str g = foldl (\<lambda>acc ir. acc @ row_text ir) [] (enumerate 0 g)"

definition build_node_grid :: "XDSM \<Rightarrow> error + string" where
  "build_node_grid m = bind_err (node_grid m) (\<lambda>g. Inr (rows_str g))"

section \<open>The edges: \<open>_build_edges\<close>\<close>

definition edge_string :: "string \<Rightarrow> string \<Rightarrow> string" where
  "edge_string start fin = ''('' @ start @ '') edge [DataLine] ('' @ fin @ '')''"

fun od_node_name :: "connection \<Rightarrow> string" where
  "od_node_name (src, target, rest) = src @ ''-'' @ target"

definition h_edges :: "XDSM \<Rightarrow> string list" where
  "h_edges m =
     map (\<lambda>c. edge_string (fst c) (od_node_name c)) (connections m)
     @ map (\<lambda>(comp_name, out_data). edge_string comp_name (fst out_data)) (left_outs m)
     @ map (\<lambda>(comp_name, out_data). edge_string comp_name (fst out_data)) (right_outs m)"

definition v_edges :: "XDSM \<Rightarrow> string list" where
  "v_edges m =
     map (\<lambda>c. edge_string (od_node_name c) (fst (snd c))) (connections m)
     @ map (\<lambda>(comp_name, in_data). edge_string comp_name (fst in_data)) (ins m)"

definition build_edges :: "XDSM \<Rightarrow> string" where
  "build_edges m =
     (let paths_str = ''% Horizontal edges\<newline>'' @ join ''\<newline>'' (h_edges m) @ ''\<newline>'';
          paths_str = paths_str @ ''% Vertical edges\<newline>'' @ join ''\<newline>'' (v_edges m) @ '';''
      in paths_str)"

section \<open>The process chains: \<open>_build_process_chain\<close>\<close>

definition sys_names :: "XDSM \<Rightarrow> string list" where
  "sys_names m = map fst (comps m)"

definition output_names :: "XDSM \<Rightarrow> string list" where
  "output_names m =
     map (\<lambda>(_, data). fst data) (ins m)
     @ map (\<lambda>(_, data). fst data) (left_outs m)
     @ map (\<lambda>(_, data). fst data) (right_outs m)"

definition no_system_msg :: "string \<Rightarrow> string" where
  "no_system_msg sys =
     ''process includes a system named '' @ [dq] @ sys @ [dq]
       @ '' but no system with that name exists.''"

text \<open>
  The inner loop over \<open>enumerate(proc)\<close>, from index \<open>i\<close> on, with the flag
  \<open>start_tip\<close> and the text built so far.
\<close>

fun proc_loop ::
  "string list \<Rightarrow> string list \<Rightarrow> bool \<Rightarrow> nat \<Rightarrow> string list \<Rightarrow> bool \<times> string
     \<Rightarrow> error + bool \<times> string" where
  "proc_loop sn outn arrow i [] st = Inr st"
| "proc_loop sn outn arrow i (sys # rest) (start_tip, chain_str) =
     (if sys \<notin> set sn \<and> sys \<notin> set outn then Inl (ValueError (no_system_msg sys))
      else
        let start_tip = (if sys \<in> set outn \<and> i = 0 then True else start_tip);
            chain_str =
              (if i = 0 then chain_str @ [bs] @ ''chainin ('' @ sys @ '');\<newline>''
               else if sys \<in> set outn \<or> (i = 1 \<and> start_tip) then
                 (if arrow then
                    chain_str @ [bs] @ ''chainin ('' @ sys @ '') [join=by ProcessTipA];\<newline>''
                  else
                    chain_str @ [bs] @ ''chainin ('' @ sys @ '') [join=by ProcessTip];\<newline>'')
               else
                 (if arrow then
                    chain_str @ [bs] @ ''chainin ('' @ sys @ '') [join=by ProcessHVA];\<newline>''
                  else
                    chain_str @ [bs] @ ''chainin ('' @ sys @ '') [join=by ProcessHV];\<newline>''))
        in proc_loop sn outn arrow (i + 1) rest (start_tip, chain_str))"

text \<open>One round of the outer loop over \<open>zip(self.processes, self.process_arrows)\<close>.\<close>

fun proc_chain :: "string list \<Rightarrow> string list \<Rightarrow> string list \<times> bool \<Rightarrow> string \<Rightarrow> error + string" where
  "proc_chain sn outn (proc, arrow) chain_str =
     bind_err
       (proc_loop sn outn arrow 0 proc
          (False,
           chain_str @ ''{ [start chain=process]\<newline> '' @ [bs] @ ''begin{pgfonlayer}{process} \<newline>''))
       (\<lambda>(start_tip, chain_str). Inr (chain_str @ [bs] @ ''end{pgfonlayer}\<newline>}''))"

definition build_process_chain :: "XDSM \<Rightarrow> error + string" where
  "build_process_chain m =
     fold_err (proc_chain (sys_names m) (output_names m))
       (zip (processes m) (process_arrows m)) []"

section \<open>Writing the files: \<open>write\<close>\<close>

definition compose_optional_package_list :: "XDSM \<Rightarrow> error + string" where
  "compose_optional_package_list m =
     bind_err (dict_get (map_of (kwargs m)) ''use_sfmath'') (\<lambda>use_sfmath.
     Inr (join '','' (if use_sfmath then [''sfmath''] else [])))"

text \<open>A text given line by line, each line ended by a newline.\<close>

definition text_lines :: "string list \<Rightarrow> string" where
  "text_lines ls = concat (map (\<lambda>l. l @ ''\<newline>'') ls)"

text \<open>\<open>tikzpicture_template.format(...)\<close>: the doubled braces of the template are single
  braces of the result.\<close>

definition tikzpicture_template ::
  "string \<Rightarrow> string \<Rightarrow> string \<Rightarrow> string \<Rightarrow> string \<Rightarrow> string" where
  "tikzpicture_template nodes edges process diagram_styles_path optional_packages =
     text_lines
      [[],
       ''%%% Preamble Requirements %%%'',
       ''% '' @ [bs] @ ''usepackage{geometry}'',
       ''% '' @ [bs] @ ''usepackage{amsfonts}'',
       ''% '' @ [bs] @ ''usepackage{amsmath}'',
       ''% '' @ [bs] @ ''usepackage{amssymb}'',
       ''% '' @ [bs] @ ''usepackage{tikz}'',
       [],
       ''% Optional packages such as sfmath set through python interface'',
       ''% '' @ [bs] @ ''usepackage{'' @ optional_packages @ ''}'',
       [],
       ''% '' @ [bs] @ ''usetikzlibrary{arrows,chains,positioning,scopes,shapes.geometric,shapes.misc,shadows}'',
       [],
       ''%%% End Preamble Requirements %%%'',
       [],
       [bs] @ ''input{'' @ diagram_styles_path @ ''}'',
       [bs] @ ''begin{tikzpicture}'',
       [],
       [bs] @ ''matrix[MatrixSetup]{'',
       nodes @ ''};'',
       [],
       ''% XDSM process chains'',
       process,
       [],
       [bs] @ ''begin{pgfonlayer}{data}'',
       [bs] @ ''path'',
       edges,
       [bs] @ ''end{pgfonlayer}'',
       [],
       [bs] @ ''end{tikzpicture}'']"

text \<open>\<open>tex_template.format(...)\<close>; of the keyword arguments passed, the template uses
  \<open>version\<close>, \<open>optional_packages\<close> and \<open>tikzpicture_path\<close>.\<close>

definition tex_template :: "string \<Rightarrow> string \<Rightarrow> string \<Rightarrow> string" where
  "tex_template tikzpicture_path optional_packages version =
     text_lines
      [[],
       ''% XDSM diagram created with pyXDSM '' @ version @ ''.'',
       [bs] @ ''documentclass{article}'',
       [bs] @ ''usepackage{geometry}'',
       [bs] @ ''usepackage{amsfonts}'',
       [bs] @ ''usepackage{amsmath}'',
       [bs] @ ''usepackage{amssymb}'',
       [bs] @ ''usepackage{tikz}'',
       [],
       ''% Optional packages such as sfmath set through python interface'',
       [bs] @ ''usepackage{'' @ optional_packages @ ''}'',
       [],
       ''% Define the set of TikZ packages to be included in the architecture diagram document'',
       [bs] @ ''usetikzlibrary{arrows,chains,positioning,scopes,shapes.geometric,shapes.misc,shadows}'',
       [],
       [],
       ''% Set the border around all of the architecture diagrams to be tight to the diagrams themselves'',
       ''% (i.e. no longer need to tinker with page size parameters)'',
       [bs] @ ''usepackage[active,tightpage]{preview}'',
       [bs] @ ''PreviewEnvironment{tikzpicture}'',
       [bs] @ ''setlength{'' @ [bs] @ ''PreviewBorder}{5pt}'',
       [],
       [bs] @ ''begin{document}'',
       [],
       [bs] @ ''input{'' @ tikzpicture_path @ ''}'',
       [],
       [bs] @ ''end{document}'']"

text \<open>
  The files on disk: a map from file names to contents. What the module takes from its
  surroundings is a parameter: the path of the diagram styles (\<open>diagram_styles\<close> beside
  the module, with forward slashes), the version of the package, what \<open>os.system\<close> does
  to the files when it runs a command, whether \<open>open(path, 'w')\<close> succeeds for a path
  (its directory exists and can be written; otherwise \<open>open\<close> raises a subclass of
  \<open>OSError\<close> and nothing is written), and whether \<open>os.remove(path)\<close> succeeds. A file
  that was opened is written in full.
\<close>

type_synonym files = "string \<rightharpoonup> string"

record os_env =
  diagram_styles_path :: string
  pyxdsm_version :: string
  os_system :: "string \<Rightarrow> files \<Rightarrow> files"
  can_open :: "string \<Rightarrow> bool"
  can_remove :: "string \<Rightarrow> bool"

text \<open>The loop that removes the build files of \<open>pdflatex\<close>, over the extensions left.\<close>

fun cleanup_files :: "os_env \<Rightarrow> string \<Rightarrow> string list \<Rightarrow> files \<Rightarrow> (error + unit) \<times> files" where
  "cleanup_files env file_name [] fs = (Inr (), fs)"
| "cleanup_files env file_name (ext # exts) fs =
     (let f_name = file_name @ ''.'' @ ext
      in if fs f_name \<noteq> None then
           (if can_remove env f_name then cleanup_files env file_name exts (fs(f_name := None))
            else (Inl (OSError f_name), fs))
         else cleanup_files env file_name exts fs)"

text \<open>
  \<open>write(file_name, build, cleanup, quiet)\<close>, here \<open>write_xdsm\<close>; \<open>file_name\<close> is \<open>None\<close> (the default) or a
  string. The result is the outcome of the call and the files as the call leaves them.
  \<open>file_name + '.tikz'\<close> raises \<open>TypeError\<close> when \<open>file_name\<close> is \<open>None\<close>.
\<close>

definition write_xdsm ::
  "os_env \<Rightarrow> XDSM \<Rightarrow> string option \<Rightarrow> bool \<Rightarrow> bool \<Rightarrow> bool \<Rightarrow> files
     \<Rightarrow> (error + unit) \<times> files" where
  "write_xdsm env m file_name build cleanup quiet fs =
     (case build_node_grid m of Inl e \<Rightarrow> (Inl e, fs) | Inr nodes \<Rightarrow>
      let edges = build_edges m in
      case build_process_chain m of Inl e \<Rightarrow> (Inl e, fs) | Inr process \<Rightarrow>
      case compose_optional_package_list m of Inl e \<Rightarrow> (Inl e, fs) | Inr optional_packages_str \<Rightarrow>
      let tikzpicture_str =
            tikzpicture_template nodes edges process (diagram_styles_path env)
              optional_packages_str in
      case file_name of None \<Rightarrow> (Inl TypeError, fs) | Some fname \<Rightarrow>
      if \<not> can_open env (fname @ ''.tikz'') then (Inl (OSError (fname @ ''.tikz'')), fs)
      else
        let fs = fs(fname @ ''.tikz'' \<mapsto> tikzpicture_str);
            tex_str = tex_template (fname @ ''.tikz'') optional_packages_str (pyxdsm_version env)
        in
        if fname \<noteq> [] \<and> \<not> can_open env (fname @ ''.tex'') then
          (Inl (OSError (fname @ ''.tex'')), fs)
        else
          let fs = (if fname \<noteq> [] then fs(fname @ ''.tex'' \<mapsto> tex_str) else fs)
          in
          if build then
            let command = ''pdflatex '';
                command = (if quiet then command @ '' -interaction=batchmode -halt-on-error ''
                           else command);
                fs = os_system env (command @ fname @ ''.tex'') fs
            in if cleanup then
                 cleanup_files env fname [''aux'', ''fdb_latexmk'', ''fls'', ''log''] fs
               else (Inr (), fs)
          else (Inr (), fs))"

section \<open>Notions used to state the properties\<close>

subsection \<open>Grids\<close>

text \<open>A grid of \<open>n\<close> rows of \<open>n\<close> cells.\<close>

definition dims :: "grid \<Rightarrow> nat \<Rightarrow> bool" where
  "dims g n = (length g = n \<and> list_all (\<lambda>row. length row = n) g)"

text \<open>The names of the endpoints of a connection.\<close>

definition conn_src :: "connection \<Rightarrow> string" where
  "conn_src c = fst c"

definition conn_target :: "connection \<Rightarrow> string" where
  "conn_target c = fst (snd c)"

text \<open>No connection of the model joins a name to itself: what \<open>connect\<close> refuses.\<close>

definition no_self_connection :: "XDSM \<Rightarrow> bool" where
  "no_self_connection m = list_all (\<lambda>c. conn_src c \<noteq> conn_target c) (connections m)"


text \<open>A sequence of writes \<open>grid[r, c] = v\<close>, and a sequence of assignments to an index map.\<close>

fun put_all :: "(nat \<times> nat \<times> string) list \<Rightarrow> grid \<Rightarrow> grid" where
  "put_all [] g = g"
| "put_all ((r, c, v) # ps) g = put_all ps (g[r := (g ! r)[c := v]])"

fun idx_all :: "(string \<times> nat) list \<Rightarrow> idx_map \<Rightarrow> idx_map" where
  "idx_all [] f = f"
| "idx_all ((k, v) # kvs) f = idx_all kvs (f(k \<mapsto> v))"

text \<open>
  \<open>g'\<close> comes from \<open>g\<close> by writes taken from \<open>W\<close>: it has the same shape, and a cell
  that differs holds a value that \<open>W\<close> allows at its place.
\<close>

definition writes_in :: "nat \<Rightarrow> (nat \<times> nat \<times> string) set \<Rightarrow> grid \<Rightarrow> grid \<Rightarrow> bool" where
  "writes_in n W g g' =
     (dims g' n \<and> (\<forall>i<n. \<forall>j<n. g' ! i ! j = g ! i ! j \<or> (i, j, g' ! i ! j) \<in> W))"

subsection \<open>Sequences of marker declarations\<close>

datatype marker_call =
    AddInput string label string bool
  | AddOutput string label string bool string

fun do_call :: "XDSM \<Rightarrow> marker_call \<Rightarrow> XDSM" where
  "do_call m (AddInput name lbl style stack) = add_input m name lbl style stack"
| "do_call m (AddOutput name lbl style stack side) = add_output m name lbl style stack side"

definition run_calls :: "XDSM \<Rightarrow> marker_call list \<Rightarrow> XDSM" where
  "run_calls m calls = foldl do_call m calls"

text \<open>
  The marker that the latest \<open>add_input\<close> call for a name declares, and the marker that the
  latest \<open>add_output\<close> call for a name and a side declares, in a sequence of calls.
\<close>

fun input_of :: "string \<Rightarrow> marker_call \<Rightarrow> marker option" where
  "input_of name (AddInput n lbl style stack) =
     (if n = name then Some (''output_'' @ n, style, lbl, stack) else None)"
| "input_of name (AddOutput n lbl style stack side) = None"

fun output_of :: "string \<Rightarrow> string \<Rightarrow> marker_call \<Rightarrow> marker option" where
  "output_of sd name (AddInput n lbl style stack) = None"
| "output_of sd name (AddOutput n lbl style stack side) =
     (if n = name \<and> side = sd then Some (sd @ ''_output_'' @ n, style, lbl, stack) else None)"

fun latest :: "('c \<Rightarrow> 'v option) \<Rightarrow> 'c list \<Rightarrow> 'v option \<Rightarrow> 'v option" where
  "latest f [] before = before"
| "latest f (c # cs) before = latest f cs (case f c of Some v \<Rightarrow> Some v | None \<Rightarrow> before)"

text \<open>The number of entries a dictionary holds for a key.\<close>

definition entries_for :: "'v dict \<Rightarrow> string \<Rightarrow> nat" where
  "entries_for d k = length (filter (\<lambda>e. fst e = k) d)"

subsection \<open>Process chains\<close>

text \<open>An entry of a process resolves when it names a component or a marker.\<close>

definition resolves :: "XDSM \<Rightarrow> string \<Rightarrow> bool" where
  "resolves m sys = (sys \<in> set (sys_names m) \<or> sys \<in> set (output_names m))"

text \<open>The line of the first entry of a process, and the line of a link, by its join style.\<close>

definition first_text :: "string \<Rightarrow> string" where
  "first_text sys = [bs] @ ''chainin ('' @ sys @ '');\<newline>''"

definition link_text :: "bool \<Rightarrow> bool \<Rightarrow> string \<Rightarrow> string" where
  "link_text tip arrow sys =
     [bs] @ ''chainin ('' @ sys @ '') [join=by ''
       @ (if tip then ''ProcessTip'' else ''ProcessHV'') @ (if arrow then ''A'' else [])
       @ ''];\<newline>''"

text \<open>
  When the link to entry \<open>i\<close> of a process gets the tip style. In the code: when entry
  \<open>i\<close> itself, the entry the link leads to, is a marker, or when it is the second entry
  and the first one is a marker.
\<close>

definition tip_link :: "string list \<Rightarrow> string list \<Rightarrow> nat \<Rightarrow> bool" where
  "tip_link outn proc i = (proc ! i \<in> set outn \<or> (i = 1 \<and> proc ! 0 \<in> set outn))"

text \<open>
  The same, as the specification words it: when the entry the link comes from, entry
  \<open>i - 1\<close>, is a marker, or when the link leads to the second entry and the first one is
  a marker.
\<close>

definition spec_tip_link :: "string list \<Rightarrow> string list \<Rightarrow> nat \<Rightarrow> bool" where
  "spec_tip_link outn proc i = (proc ! (i - 1) \<in> set outn \<or> (i = 1 \<and> proc ! 0 \<in> set outn))"

text \<open>The text of an entry, of a process and of all processes, for a given tip rule.\<close>

definition entry_text :: "(string list \<Rightarrow> nat \<Rightarrow> bool) \<Rightarrow> bool \<Rightarrow> string list \<Rightarrow> nat \<Rightarrow> string" where
  "entry_text tip arrow proc i =
     (if i = 0 then first_text (proc ! i) else link_text (tip proc i) arrow (proc ! i))"

definition process_text :: "(string list \<Rightarrow> nat \<Rightarrow> bool) \<Rightarrow> string list \<times> bool \<Rightarrow> string" where
  "process_text tip pa =
     ''{ [start chain=process]\<newline> '' @ [bs] @ ''begin{pgfonlayer}{process} \<newline>''
       @ concat (map (entry_text tip (snd pa) (fst pa)) [0 ..< length (fst pa)])
       @ [bs] @ ''end{pgfonlayer}\<newline>}''"

definition chains_text :: "(string list \<Rightarrow> nat \<Rightarrow> bool) \<Rightarrow> XDSM \<Rightarrow> string" where
  "chains_text tip m = concat (map (process_text tip) (zip (processes m) (process_arrows m)))"

subsection \<open>Scenarios\<close>

text \<open>One component \<open>A\<close> and one input marker with label \<open>z\<close> attached to it.\<close>

definition one_input_model :: "string \<Rightarrow> label \<Rightarrow> bool \<Rightarrow> bool \<Rightarrow> string option \<Rightarrow> string \<Rightarrow> bool \<Rightarrow> XDSM" where
  "one_input_model style lbl stack faded text_width in_style in_stack =
     add_input (add_system XDSM_new ''A'' style lbl stack faded text_width)
       ''A'' (Plain ''z'') in_style in_stack"

text \<open>Components \<open>A\<close> and \<open>B\<close>, an input marker on \<open>A\<close>, and the process
  \<open>A\<close>, \<open>output_A\<close>, \<open>B\<close> with arrows.\<close>

definition marker_in_middle_model :: XDSM where
  "marker_in_middle_model =
     add_process
       (add_input
          (add_system (add_system XDSM_new ''A'' ''Analysis'' (Plain ''A'') False False None)
             ''B'' ''Analysis'' (Plain ''B'') False False None)
          ''A'' (Plain ''z'') ''DataIO'' False)
       [''A'', ''output_A'', ''B''] True"

text \<open>Whether a text occurs inside another.\<close>

fun starts_with :: "string \<Rightarrow> string \<Rightarrow> bool" where
  "starts_with [] s = True"
| "starts_with (p # ps) [] = False"
| "starts_with (p # ps) (c # cs) = (p = c \<and> starts_with ps cs)"

fun occurs_in :: "string \<Rightarrow> string \<Rightarrow> bool" where
  "occurs_in pat [] = (pat = [])"
| "occurs_in pat (c # cs) = (starts_with pat (c # cs) \<or> occurs_in pat cs)"

subsection \<open>Invariants of the model and the state after the first loop\<close>

text \<open>The keys of each of the three marker dictionaries are distinct, as the keys of a
  Python \<open>dict\<close> are.\<close>

definition markers_distinct :: "XDSM \<Rightarrow> bool" where
  "markers_distinct m =
     (distinct (map fst (ins m)) \<and> distinct (map fst (left_outs m))
      \<and> distinct (map fst (right_outs m)))"

text \<open>Every entry of every process of the model resolves.\<close>

definition all_resolve :: "XDSM \<Rightarrow> bool" where
  "all_resolve m =
     list_all (\<lambda>pa. list_all (resolves m) (fst pa)) (zip (processes m) (process_arrows m))"

text \<open>The shifts of the rows and of the columns of the components.\<close>

definition row_shift :: "XDSM \<Rightarrow> nat" where
  "row_shift m = (if ins m \<noteq> [] then 1 else 0)"

definition col_shift :: "XDSM \<Rightarrow> nat" where
  "col_shift m = (if left_outs m \<noteq> [] then 1 else 0)"

text \<open>
  What the loops after the first one may write, given the index maps: the node of a
  connection at the row of its source and the column of its target, anything in column 0
  when there are left outputs, in the last column when there are right outputs, and in
  row 0 when there are inputs.
\<close>

definition later_writes :: "XDSM \<Rightarrow> idx_map \<Rightarrow> idx_map \<Rightarrow> (nat \<times> nat \<times> string) set" where
  "later_writes m row_idx_map col_idx_map =
     {(i, j, v).
        (\<exists>c \<in> set (connections m).
            row_idx_map (conn_src c) = Some i \<and> col_idx_map (conn_target c) = Some j
            \<and> v = conn_node c)
        \<or> (left_outs m \<noteq> [] \<and> j = 0)
        \<or> (right_outs m \<noteq> [] \<and> j = grid_size m - 1)
        \<or> (ins m \<noteq> [] \<and> i = 0)}"

text \<open>
  What the first loop leaves: the grid with the node of each component on the shifted
  diagonal, and the two index maps.
\<close>

definition diag_grid :: "XDSM \<Rightarrow> grid" where
  "diag_grid m =
     put_all
       (map (\<lambda>k. (k + row_shift m, k + col_shift m, comp_node (comps m ! k)))
          [0 ..< length (comps m)])
       (empty_grid (grid_size m))"

definition row_index :: "XDSM \<Rightarrow> idx_map" where
  "row_index m =
     idx_all (map (\<lambda>k. (fst (comps m ! k), k + row_shift m)) [0 ..< length (comps m)]) Map.empty"

definition col_index :: "XDSM \<Rightarrow> idx_map" where
  "col_index m =
     idx_all (map (\<lambda>k. (fst (comps m ! k), k + col_shift m)) [0 ..< length (comps m)]) Map.empty"



section \<open>Declarations\<close>

text \<open>
  C3: \<open>connect\<close> with the source equal to the target raises the validation error and
  leaves the model as it was, whatever the label, style and flags; with a source different
  from the target it succeeds and appends exactly one connection.
\<close>

theorem connect_self_fails:
  "connect m x x lbl style stack faded
     = (Inl (ValueError ''Can not connect component to itself''), m)
   \<and> (src \<noteq> target \<longrightarrow>
        connect m src target lbl style stack faded
          = (Inr (), m\<lparr>connections := connections m @ [(src, target, style, lbl, stack, faded)]\<rparr>)
        \<and> length (connections (snd (connect m src target lbl style stack faded)))
            = length (connections m) + 1)"
  by (simp add: connect_def)

theorem connect_self_fails_witness:
  "''A'' \<noteq> ''B''
   \<and> connect XDSM_new ''A'' ''A'' (Plain ''y'') ''DataInter'' False False
       = (Inl (ValueError ''Can not connect component to itself''), XDSM_new)
   \<and> connections (snd (connect XDSM_new ''A'' ''B'' (Plain ''y'') ''DataInter'' False False))
       = [(''A'', ''B'', ''DataInter'', Plain ''y'', False, False)]"
  using connect_self_fails [of XDSM_new "''A''" "Plain ''y''" "''DataInter''" False False "''A''" "''B''"]
  by (simp add: XDSM_new_def)

text \<open>
  C10: \<open>add_output\<close> with a side that is neither \<open>left\<close> nor \<open>right\<close> raises nothing and
  leaves the model unchanged.
\<close>

theorem add_output_other_side_dropped:
  "side \<noteq> ''left'' \<Longrightarrow> side \<noteq> ''right'' \<Longrightarrow> add_output m name lbl style stack side = m"
  by (simp add: add_output_def)

theorem add_output_other_side_dropped_witness:
  "''top'' \<noteq> ''left'' \<and> ''top'' \<noteq> ''right''
   \<and> add_output XDSM_new ''A'' (Plain ''f'') ''DataIO'' False ''top'' = XDSM_new"
  using add_output_other_side_dropped [of "''top''" XDSM_new "''A''" "Plain ''f''" "''DataIO''" False]
  by simp

section \<open>Rendering\<close>

text \<open>
  C5: for one component \<open>A\<close> with one input marker labelled \<open>z\<close>, the grid is 2 by 2 with
  the marker at (0,0) and \<open>A\<close> at (1,0), the other two cells empty. The only edge is
  the vertical edge from \<open>A\<close> to the marker, whose node name \<open>output_A\<close> comes from the
  name of the component, not from the label.
\<close>

theorem one_input_scenario:
  "node_grid (one_input_model style lbl stack faded tw in_style in_stack)
     = Inr [[marker_node (''output_A'', in_style, Plain ''z'', in_stack), []],
            [comp_node (''A'', style, lbl, stack, faded, tw), []]]
   \<and> v_edges (one_input_model style lbl stack faded tw in_style in_stack)
       = [edge_string ''A'' ''output_A'']
   \<and> h_edges (one_input_model style lbl stack faded tw in_style in_stack) = []"
  by (simp add: one_input_model_def add_input_def add_system_def XDSM_new_def node_grid_def
      comps_placed_def comps_rows_def comps_cols_def grid_size_def empty_grid_def bind_err_def
      grid_set_def np_index_def dict_get_def v_edges_def h_edges_def Let_def
      del: comp_node.simps marker_node.simps)

text \<open>The name \<open>output_z\<close> occurs nowhere in the edges of that model.\<close>

theorem one_input_scenario_counterexample:
  "\<not> occurs_in ''output_z''
       (build_edges (one_input_model ''Analysis'' (Plain ''A'') False False None ''DataIO'' False))"
  by (simp add: one_input_model_def add_input_def add_system_def XDSM_new_def build_edges_def
      v_edges_def h_edges_def edge_string_def Let_def)

section \<open>Writing\<close>

text \<open>With a prefix whose files can be opened and no build step, the call writes the
  \<open>.tikz\<close> file, and the \<open>.tex\<close> file when the prefix is not empty; when the \<open>.tikz\<close>
  file cannot be opened the call raises and writes nothing; a new model without a prefix
  raises \<open>TypeError\<close>.\<close>

lemma write_with_prefix:
  assumes "build_node_grid m = Inr nodes" "build_process_chain m = Inr process"
      and "compose_optional_package_list m = Inr packages"
      and "can_open env (fname @ ''.tikz'')" "can_open env (fname @ ''.tex'')"
  shows "write_xdsm env m (Some fname) False cleanup quiet fs
     = (Inr (),
        (if fname \<noteq> [] then
           (fs(fname @ ''.tikz'' \<mapsto>
                 tikzpicture_template nodes (build_edges m) process (diagram_styles_path env) packages))
             (fname @ ''.tex'' \<mapsto> tex_template (fname @ ''.tikz'') packages (pyxdsm_version env))
         else
           fs(fname @ ''.tikz'' \<mapsto>
                 tikzpicture_template nodes (build_edges m) process (diagram_styles_path env) packages)))"
  using assms by (simp add: write_xdsm_def Let_def)

lemma write_cannot_open:
  assumes "build_node_grid m = Inr nodes" "build_process_chain m = Inr process"
      and "compose_optional_package_list m = Inr packages"
      and "\<not> can_open env (fname @ ''.tikz'')"
  shows "write_xdsm env m (Some fname) build cleanup quiet fs
     = (Inl (OSError (fname @ ''.tikz'')), fs)"
  using assms by (simp add: write_xdsm_def Let_def)

lemma write_new_without_prefix:
  "write_xdsm env XDSM_new None build cleanup quiet fs = (Inl TypeError, fs)"
  by (simp add: write_xdsm_def Let_def XDSM_new_def build_node_grid_def node_grid_def
      comps_placed_def comps_rows_def comps_cols_def grid_size_def empty_grid_def bind_err_def
      build_process_chain_def compose_optional_package_list_def dict_get_def
      get_default_kwargs_def)

text \<open>
  C9: with no file prefix (\<open>file_name\<close> left at \<open>None\<close>), \<open>write\<close> raises for every
  model and writes no file: neither the \<open>.tikz\<close> file nor the \<open>.tex\<close> file.
\<close>

theorem write_without_prefix_fails:
  "\<exists>e. write_xdsm env m None build cleanup quiet fs = (Inl e, fs)"
  by (simp add: write_xdsm_def Let_def split: sum.splits)

section \<open>Marker dictionaries\<close>

lemma dict_set_keys:
  "map fst (dict_set d k v) = (if k \<in> set (map fst d) then map fst d else map fst d @ [k])"
  by (induction d) (force+)

lemma dict_set_distinct: "distinct (map fst d) \<Longrightarrow> distinct (map fst (dict_set d k v))"
  by (simp add: dict_set_keys)

lemma map_of_dict_set: "map_of (dict_set d k v) = (map_of d)(k \<mapsto> v)"
  by (induction d) auto

lemma filter_key_absent: "k \<notin> set (map fst d) \<Longrightarrow> filter (\<lambda>e. fst e = k) d = []"
  by (induction d) auto

lemma entries_for_distinct: "distinct (map fst d) \<Longrightarrow> entries_for d k \<le> 1"
  unfolding entries_for_def
proof (induction d)
  case Nil
  then show ?case by simp
next
  case (Cons e d)
  show ?case
  proof (cases "fst e = k")
    case True
    then have "k \<notin> set (map fst d)" using Cons.prems by auto
    then show ?thesis using True by (simp add: filter_key_absent del: set_map)
  next
    case False
    then show ?thesis using Cons by simp
  qed
qed

lemma do_call_distinct: "markers_distinct m \<Longrightarrow> markers_distinct (do_call m c)"
  by (cases c) (auto simp: markers_distinct_def add_input_def add_output_def dict_set_distinct)

lemma do_call_ins:
  "map_of (ins (do_call m c)) name
     = (case input_of name c of Some v \<Rightarrow> Some v | None \<Rightarrow> map_of (ins m) name)"
  by (cases c) (auto simp: add_input_def add_output_def map_of_dict_set)

lemma do_call_left:
  "map_of (left_outs (do_call m c)) name
     = (case output_of ''left'' name c of Some v \<Rightarrow> Some v | None \<Rightarrow> map_of (left_outs m) name)"
  by (cases c) (auto simp: add_input_def add_output_def map_of_dict_set)

lemma do_call_right:
  "map_of (right_outs (do_call m c)) name
     = (case output_of ''right'' name c of Some v \<Rightarrow> Some v | None \<Rightarrow> map_of (right_outs m) name)"
  by (cases c) (auto simp: add_input_def add_output_def map_of_dict_set)

lemma run_calls_distinct: "markers_distinct m \<Longrightarrow> markers_distinct (run_calls m calls)"
  unfolding run_calls_def
  by (induction calls arbitrary: m) (auto simp: do_call_distinct)

lemma run_calls_ins:
  "map_of (ins (run_calls m calls)) name = latest (input_of name) calls (map_of (ins m) name)"
  unfolding run_calls_def
  by (induction calls arbitrary: m) (auto simp: do_call_ins)

lemma run_calls_left:
  "map_of (left_outs (run_calls m calls)) name
     = latest (output_of ''left'' name) calls (map_of (left_outs m) name)"
  unfolding run_calls_def
  by (induction calls arbitrary: m) (auto simp: do_call_left)

lemma run_calls_right:
  "map_of (right_outs (run_calls m calls)) name
     = latest (output_of ''right'' name) calls (map_of (right_outs m) name)"
  unfolding run_calls_def
  by (induction calls arbitrary: m) (auto simp: do_call_right)

text \<open>
  C8: after any sequence of \<open>add_input\<close> and \<open>add_output\<close> calls, the model holds at
  most one input marker for each component name, and it is the one the latest
  \<open>add_input\<close> call for that name declared; likewise at most one left output marker and
  at most one right output marker for each name, each the one the latest \<open>add_output\<close>
  call for that name and that side declared, the two sides being independent.
\<close>

theorem one_marker_per_key:
  assumes "markers_distinct m"
  shows "entries_for (ins (run_calls m calls)) name \<le> 1
    \<and> map_of (ins (run_calls m calls)) name = latest (input_of name) calls (map_of (ins m) name)
    \<and> entries_for (left_outs (run_calls m calls)) name \<le> 1
    \<and> map_of (left_outs (run_calls m calls)) name
        = latest (output_of ''left'' name) calls (map_of (left_outs m) name)
    \<and> entries_for (right_outs (run_calls m calls)) name \<le> 1
    \<and> map_of (right_outs (run_calls m calls)) name
        = latest (output_of ''right'' name) calls (map_of (right_outs m) name)"
proof -
  have d: "markers_distinct (run_calls m calls)"
    using assms by (rule run_calls_distinct)
  show ?thesis
    using d entries_for_distinct [of "ins (run_calls m calls)" name]
      entries_for_distinct [of "left_outs (run_calls m calls)" name]
      entries_for_distinct [of "right_outs (run_calls m calls)" name]
    by (simp add: markers_distinct_def run_calls_ins run_calls_left run_calls_right)
qed

theorem one_marker_per_key_witness:
  "markers_distinct XDSM_new
   \<and> ins (run_calls XDSM_new
       [AddInput ''A'' (Plain ''x'') ''DataIO'' False,
        AddOutput ''A'' (Plain ''f'') ''DataIO'' False ''left'',
        AddOutput ''A'' (Plain ''g'') ''DataIO'' True ''right'',
        AddInput ''B'' (Plain ''u'') ''DataIO'' False,
        AddInput ''A'' (Plain ''y'') ''DataIO'' True])
      = [(''A'', ''output_A'', ''DataIO'', Plain ''y'', True),
         (''B'', ''output_B'', ''DataIO'', Plain ''u'', False)]
   \<and> map_of (ins (run_calls XDSM_new
       [AddInput ''A'' (Plain ''x'') ''DataIO'' False,
        AddOutput ''A'' (Plain ''f'') ''DataIO'' False ''left'',
        AddOutput ''A'' (Plain ''g'') ''DataIO'' True ''right'',
        AddInput ''B'' (Plain ''u'') ''DataIO'' False,
        AddInput ''A'' (Plain ''y'') ''DataIO'' True])) ''A''
      = Some (''output_A'', ''DataIO'', Plain ''y'', True)
   \<and> map_of (left_outs (run_calls XDSM_new
       [AddInput ''A'' (Plain ''x'') ''DataIO'' False,
        AddOutput ''A'' (Plain ''f'') ''DataIO'' False ''left'',
        AddOutput ''A'' (Plain ''g'') ''DataIO'' True ''right'',
        AddInput ''B'' (Plain ''u'') ''DataIO'' False,
        AddInput ''A'' (Plain ''y'') ''DataIO'' True])) ''A''
      = Some (''left_output_A'', ''DataIO'', Plain ''f'', False)
   \<and> map_of (right_outs (run_calls XDSM_new
       [AddInput ''A'' (Plain ''x'') ''DataIO'' False,
        AddOutput ''A'' (Plain ''f'') ''DataIO'' False ''left'',
        AddOutput ''A'' (Plain ''g'') ''DataIO'' True ''right'',
        AddInput ''B'' (Plain ''u'') ''DataIO'' False,
        AddInput ''A'' (Plain ''y'') ''DataIO'' True])) ''A''
      = Some (''right_output_A'', ''DataIO'', Plain ''g'', True)"
proof -
  have h: "markers_distinct XDSM_new"
    by (simp add: markers_distinct_def XDSM_new_def)
  show ?thesis
    using h one_marker_per_key [OF h, of
       "[AddInput ''A'' (Plain ''x'') ''DataIO'' False,
        AddOutput ''A'' (Plain ''f'') ''DataIO'' False ''left'',
        AddOutput ''A'' (Plain ''g'') ''DataIO'' True ''right'',
        AddInput ''B'' (Plain ''u'') ''DataIO'' False,
        AddInput ''A'' (Plain ''y'') ''DataIO'' True]" "''A''"]
    by (simp add: XDSM_new_def run_calls_def add_input_def add_output_def)
qed

section \<open>Process chains\<close>

text \<open>One round of the inner loop, when the entry resolves and when it does not.\<close>

lemma proc_loop_step:
  assumes "sys \<in> set sn \<or> sys \<in> set outn"
  shows "proc_loop sn outn arrow i (sys # rest) (st, acc)
     = proc_loop sn outn arrow (i + 1) rest
         (st \<or> (sys \<in> set outn \<and> i = 0),
          acc @ (if i = 0 then first_text sys
                 else link_text (sys \<in> set outn \<or> (i = 1 \<and> st)) arrow sys))"
  using assms by (auto simp: first_text_def link_text_def Let_def)

lemma proc_loop_raises:
  assumes "sys \<notin> set sn" "sys \<notin> set outn"
  shows "proc_loop sn outn arrow i (sys # rest) (st, acc) = Inl (ValueError (no_system_msg sys))"
  using assms by simp

lemma proc_loop_text:
  assumes "list_all (\<lambda>s. s \<in> set sn \<or> s \<in> set outn) rest"
      and "proc = pre @ rest" and "i = length pre"
      and "start_tip = (0 < i \<and> proc ! 0 \<in> set outn)"
  shows "\<exists>st. proc_loop sn outn arrow i rest (start_tip, acc)
           = Inr (st, acc @ concat (map (entry_text (tip_link outn) arrow proc) [i ..< length proc]))"
  using assms
proof (induction rest arbitrary: pre i start_tip acc)
  case Nil
  then show ?case by simp
next
  case (Cons sys rest)
  let ?st = "start_tip \<or> (sys \<in> set outn \<and> i = 0)"
  let ?line = "if i = 0 then first_text sys
                 else link_text (sys \<in> set outn \<or> (i = 1 \<and> start_tip)) arrow sys"
  have sys: "proc ! i = sys" using Cons.prems by simp
  have len: "i < length proc" using Cons.prems by simp
  have res: "sys \<in> set sn \<or> sys \<in> set outn" using Cons.prems(1) by simp
  have st': "?st = (0 < i + 1 \<and> proc ! 0 \<in> set outn)"
    using Cons.prems(4) sys by (cases "i = 0") auto
  have line: "?line = entry_text (tip_link outn) arrow proc i"
    using sys Cons.prems(4) by (auto simp: entry_text_def tip_link_def)
  have upt: "[i ..< length proc] = i # [i + 1 ..< length proc]"
    using len by (simp add: upt_conv_Cons)
  have "list_all (\<lambda>s. s \<in> set sn \<or> s \<in> set outn) rest" using Cons.prems(1) by simp
  moreover have "proc = (pre @ [sys]) @ rest" using Cons.prems(2) by simp
  moreover have "i + 1 = length (pre @ [sys])" using Cons.prems(3) by simp
  ultimately obtain st where
    "proc_loop sn outn arrow (i + 1) rest (?st, acc @ ?line)
       = Inr (st, (acc @ ?line) @ concat (map (entry_text (tip_link outn) arrow proc) [i + 1 ..< length proc]))"
    using Cons.IH [of "pre @ [sys]" "i + 1" ?st "acc @ ?line"] st' by blast
  then show ?case
    unfolding proc_loop_step [OF res] line upt by simp
qed

lemma proc_chain_text:
  assumes "list_all (\<lambda>s. s \<in> set sn \<or> s \<in> set outn) (fst pa)"
  shows "proc_chain sn outn pa chain_str = Inr (chain_str @ process_text (tip_link outn) pa)"
proof -
  obtain proc arrow where pa: "pa = (proc, arrow)" by (cases pa)
  define start where
    "start = chain_str @ ''{ [start chain=process]\<newline> '' @ [bs] @ ''begin{pgfonlayer}{process} \<newline>''"
  have "\<exists>st. proc_loop sn outn arrow 0 proc (False, start)
     = Inr (st, start @ concat (map (entry_text (tip_link outn) arrow proc) [0 ..< length proc]))"
    by (rule proc_loop_text [where pre = "[]"]) (use assms pa in simp_all)
  then obtain st where
    "proc_loop sn outn arrow 0 proc (False, start)
     = Inr (st, start @ concat (map (entry_text (tip_link outn) arrow proc) [0 ..< length proc]))"
    by blast
  then have "proc_chain sn outn (proc, arrow) chain_str
     = Inr ((start @ concat (map (entry_text (tip_link outn) arrow proc) [0 ..< length proc]))
            @ [bs] @ ''end{pgfonlayer}\<newline>}'')"
    unfolding proc_chain.simps start_def [symmetric] by (simp add: bind_err_def)
  then show ?thesis
    unfolding pa process_text_def start_def by simp
qed

lemma fold_proc_chain_text:
  assumes "list_all (\<lambda>pa. list_all (\<lambda>s. s \<in> set sn \<or> s \<in> set outn) (fst pa)) pas"
  shows "fold_err (proc_chain sn outn) pas chain_str
           = Inr (chain_str @ concat (map (process_text (tip_link outn)) pas))"
  using assms
proof (induction pas arbitrary: chain_str)
  case Nil
  then show ?case by simp
next
  case (Cons pa pas)
  then show ?case
    by (simp add: proc_chain_text bind_err_def del: proc_chain.simps)
qed

lemma find_app:
  "find P (xs @ ys) = (case find P xs of Some x \<Rightarrow> Some x | None \<Rightarrow> find P ys)"
  by (induction xs) auto

lemma find_Some_holds: "find P xs = Some x \<Longrightarrow> x \<in> set xs \<and> P x"
  by (induction xs) (auto split: if_splits)

lemma find_None_list_all: "find P xs = None \<Longrightarrow> list_all (\<lambda>x. \<not> P x) xs"
  by (induction xs) (auto split: if_splits)

lemma proc_loop_first_unresolved:
  assumes "find (\<lambda>s. s \<notin> set sn \<and> s \<notin> set outn) rest = Some sys"
  shows "proc_loop sn outn arrow i rest (st, acc) = Inl (ValueError (no_system_msg sys))"
  using assms
proof (induction rest arbitrary: i st acc)
  case Nil
  then show ?case by simp
next
  case (Cons x rest)
  show ?case
  proof (cases "x \<notin> set sn \<and> x \<notin> set outn")
    case True
    then show ?thesis using Cons.prems by simp
  next
    case False
    then have "x \<in> set sn \<or> x \<in> set outn" by simp
    then have "proc_loop sn outn arrow i (x # rest) (st, acc)
       = proc_loop sn outn arrow (i + 1) rest
         (st \<or> (x \<in> set outn \<and> i = 0),
          acc @ (if i = 0 then first_text x
                 else link_text (x \<in> set outn \<or> (i = 1 \<and> st)) arrow x))"
      by (rule proc_loop_step)
    moreover have "find (\<lambda>s. s \<notin> set sn \<and> s \<notin> set outn) rest = Some sys"
      using Cons.prems False by simp
    ultimately show ?thesis
      using Cons.IH by simp
  qed
qed

lemma proc_chain_first_unresolved:
  assumes "find (\<lambda>s. s \<notin> set sn \<and> s \<notin> set outn) (fst pa) = Some sys"
  shows "proc_chain sn outn pa chain_str = Inl (ValueError (no_system_msg sys))"
proof -
  obtain proc arrow where pa: "pa = (proc, arrow)" by (cases pa)
  show ?thesis
    unfolding pa proc_chain.simps
    using proc_loop_first_unresolved [of sn outn proc sys] assms pa
    by (simp add: bind_err_def del: proc_loop.simps)
qed

lemma fold_proc_chain_first_unresolved:
  assumes "find (\<lambda>s. s \<notin> set sn \<and> s \<notin> set outn) (concat (map fst pas)) = Some sys"
  shows "fold_err (proc_chain sn outn) pas chain_str = Inl (ValueError (no_system_msg sys))"
  using assms
proof (induction pas arbitrary: chain_str)
  case Nil
  then show ?case by simp
next
  case (Cons pa pas)
  show ?case
  proof (cases "find (\<lambda>s. s \<notin> set sn \<and> s \<notin> set outn) (fst pa)")
    case None
    then have "list_all (\<lambda>s. s \<in> set sn \<or> s \<in> set outn) (fst pa)"
      using find_None_list_all [of "\<lambda>s. s \<notin> set sn \<and> s \<notin> set outn" "fst pa"] by simp
    then have "proc_chain sn outn pa chain_str = Inr (chain_str @ process_text (tip_link outn) pa)"
      by (rule proc_chain_text)
    moreover have "find (\<lambda>s. s \<notin> set sn \<and> s \<notin> set outn) (concat (map fst pas)) = Some sys"
      using Cons.prems None by (simp add: find_app)
    ultimately show ?thesis
      using Cons.IH by (simp add: bind_err_def del: proc_chain.simps)
  next
    case (Some x)
    then have "x = sys" using Cons.prems by (simp add: find_app)
    then show ?thesis
      using Some proc_chain_first_unresolved [of sn outn pa sys chain_str]
      by (simp add: bind_err_def del: proc_chain.simps)
  qed
qed

lemma no_system_msg_inj: "no_system_msg a = no_system_msg b \<Longrightarrow> a = b"
  by (simp add: no_system_msg_def)

lemma add_process_lengths:
  "length (processes m) = length (process_arrows m)
   \<Longrightarrow> length (processes (add_process m systems arrow))
         = length (process_arrows (add_process m systems arrow))"
  by (simp add: add_process_def)

text \<open>
  C4: in a model whose processes were declared with \<open>add_process\<close> (which appends to the
  list of processes and to the list of arrow flags together), if some entry of some
  process is neither the name of a declared component nor the node name of a declared
  marker, \<open>_build_process_chain\<close> raises the \<open>ValueError\<close> whose message quotes the first
  such entry, and the message of no other name is the same text; if every entry
  resolves, it returns a text.
\<close>

theorem unresolved_process_fails:
  assumes "length (processes m) = length (process_arrows m)"
  shows "(case find (\<lambda>sys. \<not> resolves m sys) (concat (processes m)) of
            None \<Rightarrow> \<exists>chain_str. build_process_chain m = Inr chain_str
          | Some sys \<Rightarrow>
              sys \<in> set (concat (processes m)) \<and> \<not> resolves m sys
              \<and> build_process_chain m = Inl (ValueError (no_system_msg sys))
              \<and> (\<forall>other. no_system_msg other = no_system_msg sys \<longrightarrow> other = sys))"
proof -
  let ?P = "\<lambda>s. s \<notin> set (sys_names m) \<and> s \<notin> set (output_names m)"
  let ?pas = "zip (processes m) (process_arrows m)"
  have r: "(\<lambda>sys. \<not> resolves m sys) = ?P"
    by (simp add: fun_eq_iff resolves_def)
  have fstzip: "map fst ?pas = processes m"
    using assms by simp
  show ?thesis
  proof (cases "find ?P (concat (processes m))")
    case None
    have "list_all (\<lambda>s. \<not> ?P s) (concat (processes m))"
      using None by (rule find_None_list_all)
    then have "list_all (list_all (\<lambda>s. \<not> ?P s)) (map fst ?pas)"
      unfolding fstzip by (simp add: list_all_iff)
    then have "list_all (\<lambda>pa. list_all (\<lambda>s. s \<in> set (sys_names m) \<or> s \<in> set (output_names m)) (fst pa)) ?pas"
      by (simp add: list_all_iff)
    then have "build_process_chain m = Inr ([] @ concat (map (process_text (tip_link (output_names m))) ?pas))"
      unfolding build_process_chain_def by (rule fold_proc_chain_text)
    then show ?thesis using None r by simp
  next
    case (Some sys)
    have "build_process_chain m = Inl (ValueError (no_system_msg sys))"
      unfolding build_process_chain_def
      by (rule fold_proc_chain_first_unresolved) (simp add: fstzip Some)
    moreover have "sys \<in> set (concat (processes m))" "?P sys"
      using find_Some_holds [OF Some] by simp_all
    ultimately show ?thesis
      using Some r no_system_msg_inj by (auto simp: resolves_def simp del: set_concat)
  qed
qed

theorem unresolved_process_fails_witness:
  "length (processes (add_process marker_in_middle_model [''A'', ''C''] False))
     = length (process_arrows (add_process marker_in_middle_model [''A'', ''C''] False))
   \<and> build_process_chain (add_process marker_in_middle_model [''A'', ''C''] False)
       = Inl (ValueError (no_system_msg ''C''))"
proof -
  have h: "length (processes (add_process marker_in_middle_model [''A'', ''C''] False))
     = length (process_arrows (add_process marker_in_middle_model [''A'', ''C''] False))"
    by (simp add: add_process_def marker_in_middle_model_def add_input_def add_system_def XDSM_new_def)
  have f: "find (\<lambda>sys. \<not> resolves (add_process marker_in_middle_model [''A'', ''C''] False) sys)
             (concat (processes (add_process marker_in_middle_model [''A'', ''C''] False)))
           = Some ''C''"
    by (simp add: resolves_def marker_in_middle_model_def add_process_def
        add_input_def add_system_def XDSM_new_def sys_names_def output_names_def)
  show ?thesis
    using h unresolved_process_fails [OF h] unfolding f by simp
qed

text \<open>
  C6: when every entry resolves, the text of the process chains is the one in which the
  link to an entry after the first has the tip join exactly when that entry, the one the
  link leads to, is a marker, or when it is the second entry and the first entry is a
  marker; every other link has the horizontal-then-vertical join; and the arrow flag of
  the process picks the arrowed or the plain variant for all its links.
\<close>

theorem process_chain_join_styles:
  assumes "all_resolve m"
  shows "build_process_chain m = Inr (chains_text (tip_link (output_names m)) m)"
proof -
  have r: "resolves m = (\<lambda>s. s \<in> set (sys_names m) \<or> s \<in> set (output_names m))"
    by (simp add: fun_eq_iff resolves_def)
  show ?thesis
    using assms
      fold_proc_chain_text [of "sys_names m" "output_names m"
         "zip (processes m) (process_arrows m)" "[]"]
    by (simp add: all_resolve_def r build_process_chain_def chains_text_def)
qed

theorem process_chain_join_styles_witness:
  "all_resolve marker_in_middle_model
   \<and> build_process_chain marker_in_middle_model
       = Inr (''{ [start chain=process]\<newline> '' @ [bs] @ ''begin{pgfonlayer}{process} \<newline>''
              @ first_text ''A'' @ link_text True True ''output_A'' @ link_text False True ''B''
              @ [bs] @ ''end{pgfonlayer}\<newline>}'')"
proof -
  have h: "all_resolve marker_in_middle_model"
    by (simp add: all_resolve_def resolves_def marker_in_middle_model_def add_process_def
        add_input_def add_system_def XDSM_new_def sys_names_def output_names_def)
  have "chains_text (tip_link (output_names marker_in_middle_model)) marker_in_middle_model
      = ''{ [start chain=process]\<newline> '' @ [bs] @ ''begin{pgfonlayer}{process} \<newline>''
              @ first_text ''A'' @ link_text True True ''output_A'' @ link_text False True ''B''
              @ [bs] @ ''end{pgfonlayer}\<newline>}''"
    by (simp add: chains_text_def process_text_def entry_text_def tip_link_def
        marker_in_middle_model_def add_process_def upt_conv_Cons
        add_input_def add_system_def XDSM_new_def sys_names_def output_names_def)
  then show ?thesis
    using h process_chain_join_styles [OF h] by simp
qed

text \<open>
  Read with the tip join decided by the entry the link comes from, the rule gives another
  text than the code for the process \<open>A\<close>, \<open>output_A\<close>, \<open>B\<close>: the code draws the link
  into the marker with the tip join and the link out of it with the standard join.
\<close>

theorem process_chain_join_styles_counterexample:
  "build_process_chain marker_in_middle_model
     \<noteq> Inr (chains_text (spec_tip_link (output_names marker_in_middle_model)) marker_in_middle_model)"
  by (simp add: chains_text_def process_text_def entry_text_def spec_tip_link_def
        marker_in_middle_model_def add_process_def upt_conv_Cons build_process_chain_def bind_err_def
        add_input_def add_system_def XDSM_new_def sys_names_def output_names_def link_text_def first_text_def)

section \<open>The grid\<close>

subsection \<open>Indexing and assignment\<close>

lemma np_index_nat: "i < n \<Longrightarrow> np_index n (int i) = Inr i"
  by (simp add: np_index_def)

lemma np_index_int_Inr: "np_index n (int i) = Inr r \<Longrightarrow> r = i \<and> i < n"
  by (auto simp: np_index_def split: if_splits)

lemma np_index_zero_Inr: "np_index n 0 = Inr r \<Longrightarrow> r = 0 \<and> 0 < n"
  by (auto simp: np_index_def split: if_splits)

lemma np_index_last_Inr: "np_index n (- 1) = Inr r \<Longrightarrow> r = n - 1 \<and> 0 < n"
  by (auto simp: np_index_def Let_def split: if_splits)

lemma np_index_bound: "np_index n i = Inr r \<Longrightarrow> r < n"
  by (auto simp: np_index_def Let_def split: if_splits)

lemma dims_length: "dims g n \<Longrightarrow> length g = n"
  by (simp add: dims_def)

lemma dims_row: "dims g n \<Longrightarrow> r < n \<Longrightarrow> length (g ! r) = n"
  by (simp add: dims_def list_all_length)

lemma dims_update:
  assumes "dims g n"
  shows "dims (g[r := (g ! r)[c := v]]) n"
proof (cases "r < length g")
  case True
  then show ?thesis using assms by (auto simp: dims_def list_all_length nth_list_update)
next
  case False
  then have "length g \<le> r" by arith
  then have "g[r := (g ! r)[c := v]] = g" by (rule list_update_beyond)
  then show ?thesis using assms by simp
qed

lemma dims_empty_grid: "dims (empty_grid n) n"
  by (simp add: dims_def empty_grid_def list_all_length)

lemma cell_update:
  assumes "i < length g" "j < length (g ! i)"
  shows "g[r := (g ! r)[c := v]] ! i ! j = (if i = r \<and> j = c then v else g ! i ! j)"
proof (cases "r < length g")
  case True
  then show ?thesis using assms by (auto simp: nth_list_update)
next
  case False
  then show ?thesis using assms by auto
qed

lemma grid_set_Inr:
  assumes "dims g n" "grid_set g loc v = Inr g'"
  shows "\<exists>r c. np_index n (fst loc) = Inr r \<and> np_index n (snd loc) = Inr c
           \<and> r < n \<and> c < n \<and> g' = g[r := (g ! r)[c := v]]"
proof -
  obtain r where r: "np_index (length g) (fst loc) = Inr r"
    using assms(2) by (cases "np_index (length g) (fst loc)") (auto simp: grid_set_def bind_err_def)
  then have rn: "r < n" using assms(1) np_index_bound dims_length by metis
  obtain c where c: "np_index (length (g ! r)) (snd loc) = Inr c"
    using assms(2) r by (cases "np_index (length (g ! r)) (snd loc)") (auto simp: grid_set_def bind_err_def)
  have len: "length (g ! r) = n" using assms(1) rn by (rule dims_row)
  have "g' = g[r := (g ! r)[c := v]]"
    using assms(2) r c by (simp add: grid_set_def bind_err_def)
  then show ?thesis
    using r c rn len np_index_bound [of n "snd loc" c] dims_length [OF assms(1)] by auto
qed

lemma grid_set_ok:
  assumes "dims g n" "np_index n (fst loc) = Inr r" "np_index n (snd loc) = Inr c"
  shows "grid_set g loc v = Inr (g[r := (g ! r)[c := v]])"
proof -
  have "r < n" using assms(2) by (rule np_index_bound)
  then have "length (g ! r) = n" using assms(1) dims_row by blast
  then show ?thesis
    using assms dims_length [OF assms(1)] by (simp add: grid_set_def bind_err_def)
qed

lemma writes_in_refl: "dims g n \<Longrightarrow> writes_in n W g g"
  by (simp add: writes_in_def)

lemma writes_in_dims: "writes_in n W g g' \<Longrightarrow> dims g' n"
  by (simp add: writes_in_def)

lemma writes_in_step:
  assumes "writes_in n W g0 g" "(r, c, v) \<in> W"
  shows "writes_in n W g0 (g[r := (g ! r)[c := v]])"
proof -
  have d: "dims g n" using assms(1) by (rule writes_in_dims)
  have "g[r := (g ! r)[c := v]] ! i ! j = g0 ! i ! j
        \<or> (i, j, g[r := (g ! r)[c := v]] ! i ! j) \<in> W" if "i < n" "j < n" for i j
  proof -
    have "i < length g" "j < length (g ! i)"
      using that d dims_length dims_row by auto
    then have "g[r := (g ! r)[c := v]] ! i ! j = (if i = r \<and> j = c then v else g ! i ! j)"
      by (rule cell_update)
    then show ?thesis
      using assms that by (auto simp: writes_in_def)
  qed
  then show ?thesis
    using d by (simp add: writes_in_def dims_update)
qed

lemma grid_set_writes:
  assumes "writes_in n W g0 g" "grid_set g loc v = Inr g'"
      and "\<And>r c. np_index n (fst loc) = Inr r \<Longrightarrow> np_index n (snd loc) = Inr c \<Longrightarrow> (r, c, v) \<in> W"
  shows "writes_in n W g0 g'"
proof -
  obtain r c where "np_index n (fst loc) = Inr r" "np_index n (snd loc) = Inr c"
      "g' = g[r := (g ! r)[c := v]]"
    using grid_set_Inr [OF writes_in_dims [OF assms(1)] assms(2)] by blast
  then show ?thesis
    using assms(1,3) writes_in_step by blast
qed

lemma fold_err_invariant:
  assumes "I s" "fold_err f xs s = Inr s'"
      and "\<And>x s s'. x \<in> set xs \<Longrightarrow> I s \<Longrightarrow> f x s = Inr s' \<Longrightarrow> I s'"
  shows "I s'"
  using assms
proof (induction xs arbitrary: s)
  case Nil
  then show ?case by simp
next
  case (Cons x xs)
  obtain s1 where s1: "f x s = Inr s1" "fold_err f xs s1 = Inr s'"
    using Cons.prems(2) by (cases "f x s") (auto simp: bind_err_def)
  have "I s1" using Cons.prems(3) [of x s s1] Cons.prems(1) s1(1) by simp
  show ?case
  proof (rule Cons.IH [OF \<open>I s1\<close> s1(2)])
    fix y t t'
    assume "y \<in> set xs" "I t" "f y t = Inr t'"
    then show "I t'" using Cons.prems(3) [of y t t'] by simp
  qed
qed


subsection \<open>The loop over the components\<close>

lemma dims_put_all: "dims g n \<Longrightarrow> dims (put_all ps g) n"
  by (induction ps g rule: put_all.induct) (auto simp: dims_update)

lemma put_all_other:
  assumes "dims g n" "i < n" "j < n" "\<forall>p \<in> set ps. (fst p, fst (snd p)) \<noteq> (i, j)"
  shows "put_all ps g ! i ! j = g ! i ! j"
  using assms
proof (induction ps g rule: put_all.induct)
  case (1 g)
  then show ?case by simp
next
  case (2 r c v ps g)
  have d: "dims (g[r := (g ! r)[c := v]]) n" using "2.prems"(1) by (rule dims_update)
  have "i < length g" "j < length (g ! i)"
    using "2.prems" dims_length dims_row by auto
  then have "g[r := (g ! r)[c := v]] ! i ! j = (if i = r \<and> j = c then v else g ! i ! j)"
    by (rule cell_update)
  moreover have "\<not> (i = r \<and> j = c)" using "2.prems"(4) by auto
  ultimately show ?case
    using "2.IH" [OF d] "2.prems" by simp
qed

lemma put_all_hit:
  assumes "dims g n" "distinct (map (\<lambda>p. (fst p, fst (snd p))) ps)"
      and "(r, c, v) \<in> set ps" "r < n" "c < n"
  shows "put_all ps g ! r ! c = v"
  using assms
proof (induction ps g rule: put_all.induct)
  case (1 g)
  then show ?case by simp
next
  case (2 r' c' v' ps g)
  have d: "dims (g[r' := (g ! r')[c' := v']]) n" using "2.prems"(1) by (rule dims_update)
  show ?case
  proof (cases "(r, c, v) \<in> set ps")
    case True
    then show ?thesis using "2.IH" [OF d] "2.prems" by simp
  next
    case False
    then have eq: "r' = r" "c' = c" "v' = v" using "2.prems"(3) by auto
    have "\<forall>p \<in> set ps. (fst p, fst (snd p)) \<noteq> (r, c)"
      using "2.prems"(2) eq by auto
    then have "put_all ps (g[r := (g ! r)[c := v]]) ! r ! c = g[r := (g ! r)[c := v]] ! r ! c"
      using put_all_other [of "g[r := (g ! r)[c := v]]" n r c ps] d eq "2.prems"(4,5) by simp
    moreover have "r < length g" "c < length (g ! r)"
      using "2.prems"(1,4,5) dims_length dims_row by auto
    then have "g[r := (g ! r)[c := v]] ! r ! c = v"
      by (simp add: cell_update)
    ultimately show ?thesis using eq by simp
  qed
qed

lemma comps_loop:
  assumes "dims g n" "\<forall>x \<in> set xs. fst x < n \<and> fst (snd x) < n"
  shows "fold_err place_comp xs (g, rm, cm)
    = Inr (put_all (map (\<lambda>x. (fst x, fst (snd x), comp_node (snd (snd x)))) xs) g,
           idx_all (map (\<lambda>x. (fst (snd (snd x)), fst x)) xs) rm,
           idx_all (map (\<lambda>x. (fst (snd (snd x)), fst (snd x))) xs) cm)"
  using assms
proof (induction xs arbitrary: g rm cm)
  case Nil
  then show ?case by simp
next
  case (Cons x xs)
  obtain r c cmp where x: "x = (r, c, cmp)" by (cases x)
  have rc: "r < n" "c < n" using Cons.prems(2) x by auto
  have gs: "grid_set g (int r, int c) (comp_node cmp) = Inr (g[r := (g ! r)[c := comp_node cmp]])"
    by (rule grid_set_ok [OF Cons.prems(1)]) (simp_all add: np_index_nat rc)
  have d: "dims (g[r := (g ! r)[c := comp_node cmp]]) n"
    using Cons.prems(1) by (rule dims_update)
  show ?case
    using Cons.IH [OF d] Cons.prems(2) gs x
    by (simp add: bind_err_def del: comp_node.simps)
qed

lemma idx_all_sound:
  "idx_all kvs f k = Some v \<Longrightarrow> (k, v) \<in> set kvs \<or> f k = Some v"
  by (induction kvs f rule: idx_all.induct) (auto split: if_splits)


lemma idx_all_shift:
  "idx_all (map (\<lambda>kv. (fst kv, Suc (snd kv))) kvs) (\<lambda>k. map_option Suc (f k)) k
     = map_option Suc (idx_all kvs f k)"
proof (induction kvs f rule: idx_all.induct)
  case (1 f)
  then show ?case by simp
next
  case (2 k' v kvs f)
  have e: "(\<lambda>k. map_option Suc (f k))(k' \<mapsto> Suc v) = (\<lambda>k. map_option Suc ((f(k' \<mapsto> v)) k))"
    by (auto simp: fun_eq_iff)
  have "idx_all (map (\<lambda>kv. (fst kv, Suc (snd kv))) ((k', v) # kvs)) (\<lambda>k. map_option Suc (f k)) k
      = idx_all (map (\<lambda>kv. (fst kv, Suc (snd kv))) kvs) ((\<lambda>k. map_option Suc (f k))(k' \<mapsto> Suc v)) k"
    by simp
  also have "\<dots> = idx_all (map (\<lambda>kv. (fst kv, Suc (snd kv))) kvs)
                      (\<lambda>k. map_option Suc ((f(k' \<mapsto> v)) k)) k"
    by (simp only: e)
  also have "\<dots> = map_option Suc (idx_all kvs (f(k' \<mapsto> v)) k)"
    by (rule 2)
  finally show ?case by simp
qed

lemma grid_size_eq:
  "grid_size m = length (comps m) + row_shift m + col_shift m + (if right_outs m \<noteq> [] then 1 else 0)"
  by (simp add: grid_size_def row_shift_def col_shift_def Let_def)

lemma comps_rows_eq: "comps_rows m = map (\<lambda>k. k + row_shift m) [0 ..< length (comps m)]"
  by (simp add: comps_rows_def row_shift_def Let_def map_idI)

lemma comps_cols_eq: "comps_cols m = map (\<lambda>k. k + col_shift m) [0 ..< length (comps m)]"
  by (simp add: comps_cols_def col_shift_def Let_def map_idI)

lemma comp_triples:
  "zip (comps_rows m) (zip (comps_cols m) (comps m))
     = map (\<lambda>k. (k + row_shift m, k + col_shift m, comps m ! k)) [0 ..< length (comps m)]"
proof (rule nth_equalityI)
  show "length (zip (comps_rows m) (zip (comps_cols m) (comps m)))
      = length (map (\<lambda>k. (k + row_shift m, k + col_shift m, comps m ! k)) [0 ..< length (comps m)])"
    by (simp add: comps_rows_eq comps_cols_eq)
next
  fix i
  assume "i < length (zip (comps_rows m) (zip (comps_cols m) (comps m)))"
  then have "i < length (comps m)" by simp
  then show "zip (comps_rows m) (zip (comps_cols m) (comps m)) ! i
      = map (\<lambda>k. (k + row_shift m, k + col_shift m, comps m ! k)) [0 ..< length (comps m)] ! i"
    by (simp add: comps_rows_eq comps_cols_eq)
qed

lemma comps_placed_eq: "comps_placed m = Inr (diag_grid m, row_index m, col_index m)"
proof -
  let ?xs = "map (\<lambda>k. (k + row_shift m, k + col_shift m, comps m ! k)) [0 ..< length (comps m)]"
  have b: "\<forall>x \<in> set ?xs. fst x < grid_size m \<and> fst (snd x) < grid_size m"
    by (auto simp: grid_size_eq)
  have "fold_err place_comp ?xs (empty_grid (grid_size m), Map.empty, Map.empty)
    = Inr (put_all (map (\<lambda>x. (fst x, fst (snd x), comp_node (snd (snd x)))) ?xs) (empty_grid (grid_size m)),
           idx_all (map (\<lambda>x. (fst (snd (snd x)), fst x)) ?xs) Map.empty,
           idx_all (map (\<lambda>x. (fst (snd (snd x)), fst (snd x))) ?xs) Map.empty)"
    using dims_empty_grid b by (rule comps_loop)
  then show ?thesis
    unfolding comps_placed_def comp_triples diag_grid_def row_index_def col_index_def
    by (simp add: comp_def del: comp_node.simps)
qed

lemma dims_diag_grid: "dims (diag_grid m) (grid_size m)"
  unfolding diag_grid_def by (rule dims_put_all) (rule dims_empty_grid)


lemma diag_grid_comp:
  assumes "k < length (comps m)"
  shows "diag_grid m ! (k + row_shift m) ! (k + col_shift m) = comp_node (comps m ! k)"
  unfolding diag_grid_def
proof (rule put_all_hit [OF dims_empty_grid])
  show "distinct (map (\<lambda>p. (fst p, fst (snd p)))
          (map (\<lambda>k. (k + row_shift m, k + col_shift m, comp_node (comps m ! k))) [0 ..< length (comps m)]))"
    by (simp add: distinct_map comp_def inj_on_def)
  show "(k + row_shift m, k + col_shift m, comp_node (comps m ! k))
      \<in> set (map (\<lambda>k. (k + row_shift m, k + col_shift m, comp_node (comps m ! k))) [0 ..< length (comps m)])"
    using assms by (simp del: comp_node.simps)
  show "k + row_shift m < grid_size m" "k + col_shift m < grid_size m"
    using assms by (simp_all add: grid_size_eq)
qed


lemma row_index_sound:
  assumes "row_index m name = Some r"
  shows "\<exists>k < length (comps m). r = k + row_shift m \<and> fst (comps m ! k) = name"
  using idx_all_sound [OF assms [unfolded row_index_def]] by auto

lemma col_index_sound:
  assumes "col_index m name = Some c"
  shows "\<exists>k < length (comps m). c = k + col_shift m \<and> fst (comps m ! k) = name"
  using idx_all_sound [OF assms [unfolded col_index_def]] by auto




subsection \<open>The loops over the connections and the markers\<close>

lemma dict_get_Inr: "dict_get d k = Inr v \<Longrightarrow> d k = Some v"
  by (auto simp: dict_get_def split: option.splits)

lemma later_writes_connI:
  "c \<in> set (connections m) \<Longrightarrow> rm (conn_src c) = Some i \<Longrightarrow> cm (conn_target c) = Some j
   \<Longrightarrow> (i, j, conn_node c) \<in> later_writes m rm cm"
  unfolding later_writes_def by blast

lemma place_conn_writes:
  assumes "c \<in> set (connections m)"
      and "writes_in (grid_size m) (later_writes m rm cm) g0 g"
      and "place_conn rm cm c g = Inr g'"
  shows "writes_in (grid_size m) (later_writes m rm cm) g0 g'"
proof -
  obtain src target rest where c: "c = (src, target, rest)" by (cases c)
  obtain r where r: "dict_get rm src = Inr r"
    using assms(3) c by (cases "dict_get rm src") (auto simp: bind_err_def)
  obtain cc where cc: "dict_get cm target = Inr cc"
    using assms(3) c r by (cases "dict_get cm target") (auto simp: bind_err_def)
  have gs: "grid_set g (int r, int cc) (conn_node c) = Inr g'"
    using assms(3) c r cc by (simp add: bind_err_def del: conn_node.simps)
  have w: "(r, cc, conn_node c) \<in> later_writes m rm cm"
  proof (rule later_writes_connI [OF assms(1)])
    show "rm (conn_src c) = Some r" using dict_get_Inr [OF r] c by (simp add: conn_src_def)
    show "cm (conn_target c) = Some cc" using dict_get_Inr [OF cc] c by (simp add: conn_target_def)
  qed
  show ?thesis
  proof (rule grid_set_writes [OF assms(2) gs])
    fix r' c'
    assume "np_index (grid_size m) (fst (int r, int cc)) = Inr r'"
       and "np_index (grid_size m) (snd (int r, int cc)) = Inr c'"
    then have "r' = r" "c' = cc" using np_index_int_Inr by auto
    then show "(r', c', conn_node c) \<in> later_writes m rm cm" using w by simp
  qed
qed

lemma place_left_out_writes:
  assumes "x \<in> set (left_outs m)"
      and "writes_in (grid_size m) (later_writes m rm cm) g0 g"
      and "place_left_out rm x g = Inr g'"
  shows "writes_in (grid_size m) (later_writes m rm cm) g0 g'"
proof -
  obtain comp_name out_data where x: "x = (comp_name, out_data)" by (cases x)
  obtain r where r: "dict_get rm comp_name = Inr r"
    using assms(3) x by (cases "dict_get rm comp_name") (auto simp: bind_err_def)
  have gs: "grid_set g (int r, 0) (marker_node out_data) = Inr g'"
    using assms(3) x r by (simp add: bind_err_def del: marker_node.simps)
  have ne: "left_outs m \<noteq> []" using assms(1) by auto
  show ?thesis
  proof (rule grid_set_writes [OF assms(2) gs])
    fix r' c'
    assume "np_index (grid_size m) (snd (int r, 0::int)) = Inr c'"
    then have "c' = 0" using np_index_zero_Inr by auto
    then show "(r', c', marker_node out_data) \<in> later_writes m rm cm"
      using ne by (simp add: later_writes_def del: marker_node.simps)
  qed
qed

lemma place_right_out_writes:
  assumes "x \<in> set (right_outs m)"
      and "writes_in (grid_size m) (later_writes m rm cm) g0 g"
      and "place_right_out rm x g = Inr g'"
  shows "writes_in (grid_size m) (later_writes m rm cm) g0 g'"
proof -
  obtain comp_name out_data where x: "x = (comp_name, out_data)" by (cases x)
  obtain r where r: "dict_get rm comp_name = Inr r"
    using assms(3) x by (cases "dict_get rm comp_name") (auto simp: bind_err_def)
  have gs: "grid_set g (int r, - 1) (marker_node out_data) = Inr g'"
    using assms(3) x r by (simp add: bind_err_def del: marker_node.simps)
  have ne: "right_outs m \<noteq> []" using assms(1) by auto
  show ?thesis
  proof (rule grid_set_writes [OF assms(2) gs])
    fix r' c'
    assume "np_index (grid_size m) (snd (int r, - 1::int)) = Inr c'"
    then have "c' = grid_size m - 1" using np_index_last_Inr by auto
    then show "(r', c', marker_node out_data) \<in> later_writes m rm cm"
      using ne by (simp add: later_writes_def del: marker_node.simps)
  qed
qed

lemma place_in_writes:
  assumes "x \<in> set (ins m)"
      and "writes_in (grid_size m) (later_writes m rm cm) g0 g"
      and "place_in cm x g = Inr g'"
  shows "writes_in (grid_size m) (later_writes m rm cm) g0 g'"
proof -
  obtain comp_name in_data where x: "x = (comp_name, in_data)" by (cases x)
  obtain c where c: "dict_get cm comp_name = Inr c"
    using assms(3) x by (cases "dict_get cm comp_name") (auto simp: bind_err_def)
  have gs: "grid_set g (0, int c) (marker_node in_data) = Inr g'"
    using assms(3) x c by (simp add: bind_err_def del: marker_node.simps)
  have ne: "ins m \<noteq> []" using assms(1) by auto
  show ?thesis
  proof (rule grid_set_writes [OF assms(2) gs])
    fix r' c'
    assume "np_index (grid_size m) (fst (0::int, int c)) = Inr r'"
    then have "r' = 0" using np_index_zero_Inr by auto
    then show "(r', c', marker_node in_data) \<in> later_writes m rm cm"
      using ne by (simp add: later_writes_def del: marker_node.simps)
  qed
qed

lemma node_grid_unfold:
  "node_grid m =
     bind_err (fold_err (place_conn (row_index m) (col_index m)) (connections m) (diag_grid m)) (\<lambda>g.
     bind_err (fold_err (place_left_out (row_index m)) (left_outs m) g) (\<lambda>g.
     bind_err (fold_err (place_right_out (row_index m)) (right_outs m) g) (\<lambda>g.
     fold_err (place_in (col_index m)) (ins m) g)))"
  by (simp add: node_grid_def comps_placed_eq bind_err_def)

lemma node_grid_writes:
  assumes "node_grid m = Inr g"
  shows "writes_in (grid_size m) (later_writes m (row_index m) (col_index m)) (diag_grid m) g"
proof -
  let ?I = "writes_in (grid_size m) (later_writes m (row_index m) (col_index m)) (diag_grid m)"
  obtain g2 where g2: "fold_err (place_conn (row_index m) (col_index m)) (connections m) (diag_grid m) = Inr g2"
    using assms unfolding node_grid_unfold
    by (cases "fold_err (place_conn (row_index m) (col_index m)) (connections m) (diag_grid m)")
       (auto simp: bind_err_def)
  obtain g3 where g3: "fold_err (place_left_out (row_index m)) (left_outs m) g2 = Inr g3"
    using assms g2 unfolding node_grid_unfold
    by (cases "fold_err (place_left_out (row_index m)) (left_outs m) g2") (auto simp: bind_err_def)
  obtain g4 where g4: "fold_err (place_right_out (row_index m)) (right_outs m) g3 = Inr g4"
    using assms g2 g3 unfolding node_grid_unfold
    by (cases "fold_err (place_right_out (row_index m)) (right_outs m) g3") (auto simp: bind_err_def)
  have g5: "fold_err (place_in (col_index m)) (ins m) g4 = Inr g"
    using assms g2 g3 g4 unfolding node_grid_unfold by (simp add: bind_err_def)
  have i1: "?I (diag_grid m)" using dims_diag_grid by (rule writes_in_refl)
  have i2: "?I g2" using i1 g2 place_conn_writes by (rule fold_err_invariant)
  have i3: "?I g3" using i2 g3 place_left_out_writes by (rule fold_err_invariant)
  have i4: "?I g4" using i3 g4 place_right_out_writes by (rule fold_err_invariant)
  show "?I g" using i4 g5 place_in_writes by (rule fold_err_invariant)
qed

subsection \<open>The cells of the finished grid\<close>

lemma node_grid_dims: "node_grid m = Inr g \<Longrightarrow> dims g (grid_size m)"
  using node_grid_writes writes_in_dims by blast

lemma no_self_connectionD:
  "no_self_connection m \<Longrightarrow> c \<in> set (connections m) \<Longrightarrow> conn_src c \<noteq> conn_target c"
  by (simp add: no_self_connection_def list_all_iff)

lemma later_writes_iff:
  "(i, j, v) \<in> later_writes m rm cm \<longleftrightarrow>
     (\<exists>c \<in> set (connections m).
         rm (conn_src c) = Some i \<and> cm (conn_target c) = Some j \<and> v = conn_node c)
     \<or> (left_outs m \<noteq> [] \<and> j = 0)
     \<or> (right_outs m \<noteq> [] \<and> j = grid_size m - 1)
     \<or> (ins m \<noteq> [] \<and> i = 0)"
  by (simp add: later_writes_def)

lemma comp_cell_not_later:
  assumes "no_self_connection m" "k < length (comps m)"
  shows "(k + row_shift m, k + col_shift m, v) \<notin> later_writes m (row_index m) (col_index m)"
proof
  assume "(k + row_shift m, k + col_shift m, v) \<in> later_writes m (row_index m) (col_index m)"
  then consider
      (conn) c where "c \<in> set (connections m)"
        "row_index m (conn_src c) = Some (k + row_shift m)"
        "col_index m (conn_target c) = Some (k + col_shift m)"
    | (left) "left_outs m \<noteq> []" "k + col_shift m = 0"
    | (right) "right_outs m \<noteq> []" "k + col_shift m = grid_size m - 1"
    | (inp) "ins m \<noteq> []" "k + row_shift m = 0"
    unfolding later_writes_iff by auto
  then show False
  proof cases
    case conn
    obtain a where "a < length (comps m)" "k + row_shift m = a + row_shift m"
        "fst (comps m ! a) = conn_src c"
      using row_index_sound [OF conn(2)] by blast
    moreover obtain b where "b < length (comps m)" "k + col_shift m = b + col_shift m"
        "fst (comps m ! b) = conn_target c"
      using col_index_sound [OF conn(3)] by blast
    ultimately have "conn_src c = conn_target c" by simp
    then show False using no_self_connectionD [OF assms(1) conn(1)] by simp
  next
    case left
    then show False by (simp add: col_shift_def)
  next
    case right
    then show False using assms(2) by (simp add: grid_size_eq)
  next
    case inp
    then show False by (simp add: row_shift_def)
  qed
qed

lemma comp_cell_final:
  assumes "node_grid m = Inr g" "no_self_connection m" "k < length (comps m)"
  shows "g ! (k + row_shift m) ! (k + col_shift m) = comp_node (comps m ! k)"
proof -
  have "k + row_shift m < grid_size m" "k + col_shift m < grid_size m"
    using assms(3) by (simp_all add: grid_size_eq)
  then have "g ! (k + row_shift m) ! (k + col_shift m)
        = diag_grid m ! (k + row_shift m) ! (k + col_shift m)
      \<or> (k + row_shift m, k + col_shift m, g ! (k + row_shift m) ! (k + col_shift m))
          \<in> later_writes m (row_index m) (col_index m)"
    using node_grid_writes [OF assms(1)] by (simp add: writes_in_def)
  then show ?thesis
    using comp_cell_not_later [OF assms(2,3)] diag_grid_comp [OF assms(3)] by auto
qed




subsection \<open>The layout\<close>




lemma row_index_shift:
  assumes "ins m \<noteq> []"
  shows "row_index m name = map_option Suc (row_index (m\<lparr>ins := []\<rparr>) name)"
proof -
  let ?kvs = "map (\<lambda>k. (fst (comps m ! k), k)) [0 ..< length (comps m)]"
  have a: "row_index m = idx_all (map (\<lambda>kv. (fst kv, Suc (snd kv))) ?kvs) Map.empty"
    using assms by (simp add: row_index_def row_shift_def comp_def)
  have b: "row_index (m\<lparr>ins := []\<rparr>) = idx_all ?kvs Map.empty"
    by (simp add: row_index_def row_shift_def)
  have "idx_all (map (\<lambda>kv. (fst kv, Suc (snd kv))) ?kvs) (\<lambda>k. map_option Suc (Map.empty k)) name
      = map_option Suc (idx_all ?kvs Map.empty name)"
    by (rule idx_all_shift)
  then show ?thesis unfolding a b by simp
qed

lemma col_index_without_ins: "col_index (m\<lparr>ins := []\<rparr>) = col_index m"
  by (simp add: col_index_def col_shift_def)

text \<open>
  C2: when at least one input marker is declared, however many, the dimension of the
  grid is one more than with the input markers removed, the row of every component is
  one more (row 0 is left to the inputs) while its column is the same, and so are the
  rows that the index map gives to the names; the grid that \<open>_build_node_grid\<close> builds
  has that dimension, and, in it, the node of the k-th component is in row k + 1.
\<close>

theorem input_markers_shift_rows:
  assumes "ins m \<noteq> []"
  shows "grid_size m = grid_size (m\<lparr>ins := []\<rparr>) + 1
       \<and> comps_rows m = map (\<lambda>i. i + 1) (comps_rows (m\<lparr>ins := []\<rparr>))
       \<and> comps_cols m = comps_cols (m\<lparr>ins := []\<rparr>)
       \<and> (\<exists>g rm g0 rm0 cm.
             comps_placed m = Inr (g, rm, cm) \<and> comps_placed (m\<lparr>ins := []\<rparr>) = Inr (g0, rm0, cm)
             \<and> (\<forall>name. rm name = map_option (\<lambda>r. r + 1) (rm0 name)))
       \<and> (\<forall>g. node_grid m = Inr g \<longrightarrow>
             dims g (grid_size m)
             \<and> (no_self_connection m \<longrightarrow>
                  (\<forall>k < length (comps m).
                      comps_rows m ! k = k + 1
                      \<and> g ! (k + 1) ! (comps_cols m ! k) = comp_node (comps m ! k))))"
proof -
  have rs: "row_shift m = 1" using assms by (simp add: row_shift_def)
  have 1: "grid_size m = grid_size (m\<lparr>ins := []\<rparr>) + 1"
    using assms by (simp add: grid_size_def Let_def)
  have 2: "comps_rows m = map (\<lambda>i. i + 1) (comps_rows (m\<lparr>ins := []\<rparr>))"
    using assms by (simp add: comps_rows_def Let_def)
  have 3: "comps_cols m = comps_cols (m\<lparr>ins := []\<rparr>)"
    by (simp add: comps_cols_def Let_def)
  have 4: "\<exists>g rm g0 rm0 cm.
             comps_placed m = Inr (g, rm, cm) \<and> comps_placed (m\<lparr>ins := []\<rparr>) = Inr (g0, rm0, cm)
             \<and> (\<forall>name. rm name = map_option (\<lambda>r. r + 1) (rm0 name))"
  proof -
    have "comps_placed (m\<lparr>ins := []\<rparr>)
        = Inr (diag_grid (m\<lparr>ins := []\<rparr>), row_index (m\<lparr>ins := []\<rparr>), col_index m)"
      using comps_placed_eq [of "m\<lparr>ins := []\<rparr>"] by (simp add: col_index_without_ins)
    moreover have "\<forall>name. row_index m name = map_option (\<lambda>r. r + 1) (row_index (m\<lparr>ins := []\<rparr>) name)"
      using row_index_shift [OF assms] by simp
    ultimately show ?thesis
      using comps_placed_eq [of m] by blast
  qed
  have 5: "dims g (grid_size m)
             \<and> (no_self_connection m \<longrightarrow>
                  (\<forall>k < length (comps m).
                      comps_rows m ! k = k + 1
                      \<and> g ! (k + 1) ! (comps_cols m ! k) = comp_node (comps m ! k)))"
    if g: "node_grid m = Inr g" for g
  proof -
    have "comps_rows m ! k = k + 1 \<and> g ! (k + 1) ! (comps_cols m ! k) = comp_node (comps m ! k)"
      if "no_self_connection m" "k < length (comps m)" for k
      using comp_cell_final [OF g that] that(2) rs
      by (simp add: comps_rows_eq comps_cols_eq del: comp_node.simps)
    then show ?thesis using node_grid_dims [OF g] by blast
  qed
  show ?thesis using 1 2 3 4 5 by blast
qed

theorem input_markers_shift_rows_witness:
  "ins (one_input_model ''Analysis'' (Plain ''A'') False False None ''DataIO'' False) \<noteq> []
   \<and> grid_size (one_input_model ''Analysis'' (Plain ''A'') False False None ''DataIO'' False) = 2
   \<and> comps_rows (one_input_model ''Analysis'' (Plain ''A'') False False None ''DataIO'' False) = [1]"
proof -
  let ?m = "one_input_model ''Analysis'' (Plain ''A'') False False None ''DataIO'' False"
  have h: "ins ?m \<noteq> []"
    by (simp add: one_input_model_def add_input_def add_system_def XDSM_new_def)
  have "grid_size (?m\<lparr>ins := []\<rparr>) = 1" "comps_rows (?m\<lparr>ins := []\<rparr>) = [0]"
    by (simp_all add: grid_size_def comps_rows_def Let_def one_input_model_def add_input_def
        add_system_def XDSM_new_def)
  then show ?thesis
    using h input_markers_shift_rows [OF h] by simp
qed

end
